theory Spec2Isabelle
  imports Main "HOL-Library.AList"
begin

text \<open>
  The merge of \<^verbatim>\<open>trakt-to-letterboxd.js\<close>: \<open>formatDate\<close> and the part of
  \<open>processTraktData\<close> between the two parsed JSON documents and the records handed to
  the CSV writer. Reading the files, writing the CSV file and the \<open>console.log\<close>
  lines are left out; the \<open>console.warn\<close> calls are kept, as a list of warnings.
\<close>

section \<open>JavaScript values read from the two JSON documents\<close>

text \<open>
  The leaves of the parsed documents are JSON primitives; a property that is absent reads
  as \<open>undefined\<close>. Numbers are the integers (trakt ids, years, ratings); strings are
  compared as values. On these values the key comparison of a JavaScript \<open>Map\<close>
  (SameValueZero) is equality, and the number \<open>1\<close> and the string \<open>"1"\<close> are
  different keys.
\<close>

datatype jsval = JUndefined | JNull | JBool bool | JNum int | JStr string

text \<open>ToBoolean: what \<open>if (v)\<close>, \<open>!v\<close>, \<open>&&\<close> and \<open>||\<close> test.\<close>

fun truthy :: "jsval \<Rightarrow> bool" where
  "truthy JUndefined = False"
| "truthy JNull = False"
| "truthy (JBool b) = b"
| "truthy (JNum n) = (n \<noteq> 0)"
| "truthy (JStr s) = (s \<noteq> [])"

text \<open>\<open>a || b\<close>\<close>

definition js_or :: "jsval \<Rightarrow> jsval \<Rightarrow> jsval" where
  "js_or a b = (if truthy a then a else b)"

section \<open>The input entries\<close>

text \<open>
  An entry of either document is an object; \<open>movie\<close> and \<open>movie.ids\<close> are objects
  when present (\<open>None\<close>: the property is absent or \<open>null\<close>, which the guard
  \<open>item.movie && item.movie.ids\<close> treats alike). \<open>plays\<close> is an integer count
  when present. One record type serves both documents, as the source reads both kinds of
  entry by property name: a watched entry uses \<open>movie\<close>, \<open>last_watched_at\<close> and
  \<open>plays\<close>, a rating entry uses \<open>type\<close>, \<open>movie\<close>, \<open>rating\<close> and
  \<open>rated_at\<close>. On an object every property read of the source is defined, and the
  properties of \<open>movie\<close> and \<open>movie.ids\<close> are read behind the guard only, so
  the body of either loop throws nothing on an object.
\<close>

record ids_block =
  trakt :: jsval
  imdb :: jsval
  tmdb :: jsval

record movie_obj =
  ids :: "ids_block option"
  title :: jsval
  year :: jsval

record item =
  movie :: "movie_obj option"
  last_watched_at :: jsval
  plays :: "int option"
  type :: jsval
  rating :: jsval
  rated_at :: jsval

section \<open>Dates\<close>

text \<open>
  What \<open>new Date(v)\<close> makes of a value and which calendar day a time value falls on in
  the time zone of the process belong to the JavaScript engine and its environment, so
  they are parameters: \<open>getTime env v\<close> is \<open>new Date(v).getTime()\<close>, with
  \<open>None\<close> for \<open>NaN\<close> (an invalid date); the other three read the local calendar
  fields of a time value.
\<close>

record date_env =
  getTime :: "jsval \<Rightarrow> int option"
  getFullYear :: "int \<Rightarrow> int"
  getMonth :: "int \<Rightarrow> nat"
  getDate :: "int \<Rightarrow> nat"

text \<open>\<open>String(n)\<close> for an integer, in decimal.\<close>

definition digit :: "nat \<Rightarrow> char" where
  "digit n = ''0123456789'' ! (n mod 10)"

fun String_nat :: "nat \<Rightarrow> string" where
  "String_nat n = (if n < 10 then [digit n] else String_nat (n div 10) @ [digit n])"

declare String_nat.simps [simp del]

definition String_int :: "int \<Rightarrow> string" where
  "String_int i = (if i < 0 then CHR ''-'' # String_nat (nat (- i)) else String_nat (nat i))"

text \<open>\<open>s.padStart(n, c)\<close> for a one-character pad.\<close>

definition padStart :: "nat \<Rightarrow> char \<Rightarrow> string \<Rightarrow> string" where
  "padStart n c s = replicate (n - length s) c @ s"

text \<open>The three \<open>console.warn\<close> calls of the source, with their argument.\<close>

datatype warning =
  InvalidDate jsval
| SkippingWatched item
| SkippingRating item

text \<open>
  \<open>formatDate\<close> returns the formatted date together with the warnings it printed.
  \<open>new Date\<close> does not throw on a primitive, so the \<open>catch\<close> branch is never
  taken.
\<close>

definition formatDate :: "date_env \<Rightarrow> jsval \<Rightarrow> string \<times> warning list" where
  "formatDate env dateString =
    (if \<not> truthy dateString then ('''', [])
     else
       (case getTime env dateString of
          None \<Rightarrow> ('''', [InvalidDate dateString])
        | Some t \<Rightarrow>
            (let year = getFullYear env t;
                 month = padStart 2 CHR ''0'' (String_nat (getMonth env t + 1));
                 day = padStart 2 CHR ''0'' (String_nat (getDate env t))
             in (String_int year @ ''-'' @ month @ ''-'' @ day, []))))"

text \<open>\<open>new Date(a) > new Date(b)\<close>: a comparison with \<open>NaN\<close> is false.\<close>

definition dateGreater :: "date_env \<Rightarrow> jsval \<Rightarrow> jsval \<Rightarrow> bool" where
  "dateGreater env a b =
    (case getTime env a of
       None \<Rightarrow> False
     | Some x \<Rightarrow> (case getTime env b of None \<Rightarrow> False | Some y \<Rightarrow> x > y))"

section \<open>The merge\<close>

record movieInfo =
  traktId :: jsval
  imdbID :: jsval
  tmdbID :: jsval
  Title :: jsval
  Year :: jsval
  Rating10 :: jsval
  WatchedDate :: string
  Rewatch :: bool
  lastWatchedTimestamp :: jsval

text \<open>
  \<open>mergedMovies\<close> is a JavaScript \<open>Map\<close>: it iterates in the order in which its
  keys were first inserted, and \<open>set\<close> on a key it holds replaces the value where it
  stands. That is an association list with \<open>AList.update\<close>; \<open>has\<close> and
  \<open>get\<close> are \<open>map_of\<close>. The state also carries the two counters of the rating
  pass and the warnings printed so far.
\<close>

record state =
  mergedMovies :: "(jsval \<times> movieInfo) list"
  ratingsMergedCount :: nat
  ratingsAddedCount :: nat
  warnings :: "warning list"

definition initState :: state where
  "initState = \<lparr>mergedMovies = [], ratingsMergedCount = 0, ratingsAddedCount = 0, warnings = []\<rparr>"

text \<open>The guard \<open>item.movie && item.movie.ids && item.movie.ids.trakt\<close>, returning
  the two objects it found.\<close>

definition movieWithIds :: "item \<Rightarrow> (movie_obj \<times> ids_block) option" where
  "movieWithIds it =
    (case movie it of
       None \<Rightarrow> None
     | Some m \<Rightarrow>
         (case ids m of
            None \<Rightarrow> None
          | Some i \<Rightarrow> if truthy (trakt i) then Some (m, i) else None))"

text \<open>\<open>item.plays || 0\<close>\<close>

definition playsOr0 :: "item \<Rightarrow> int" where
  "playsOr0 it = (case plays it of None \<Rightarrow> 0 | Some n \<Rightarrow> if n \<noteq> 0 then n else 0)"

text \<open>The body of \<open>watchedData.forEach\<close>.\<close>

definition watchedStep :: "date_env \<Rightarrow> item \<Rightarrow> state \<Rightarrow> state" where
  "watchedStep env it st =
    (case movieWithIds it of
       Some (m, i) \<Rightarrow>
         (let traktId = trakt i;
              watchedDate = formatDate env (last_watched_at it);
              movieInfo = \<lparr>traktId = traktId,
                           imdbID = js_or (imdb i) (JStr ''''),
                           tmdbID = js_or (tmdb i) (JStr ''''),
                           Title = js_or (title m) (JStr ''''),
                           Year = js_or (year m) (JStr ''''),
                           Rating10 = JStr '''',
                           WatchedDate = fst watchedDate,
                           Rewatch = (playsOr0 it > 1),
                           lastWatchedTimestamp = last_watched_at it\<rparr>
          in st\<lparr>mergedMovies := AList.update traktId movieInfo (mergedMovies st),
                 warnings := warnings st @ snd watchedDate\<rparr>)
     | None \<Rightarrow> st\<lparr>warnings := warnings st @ [SkippingWatched it]\<rparr>)"

text \<open>The date decision of the merge branch, on the record whose rating was just set.\<close>

definition mergeDate :: "date_env \<Rightarrow> jsval \<Rightarrow> string \<Rightarrow> movieInfo \<Rightarrow> movieInfo" where
  "mergeDate env ratedAtTimestamp ratedAtDate existing =
    (let existingTimestamp = lastWatchedTimestamp existing in
     if truthy ratedAtTimestamp \<and>
        (\<not> truthy existingTimestamp \<or> dateGreater env ratedAtTimestamp existingTimestamp)
     then existing\<lparr>WatchedDate := ratedAtDate\<rparr>
     else if WatchedDate existing = '''' \<and> ratedAtDate \<noteq> ''''
     then existing\<lparr>WatchedDate := ratedAtDate\<rparr>
     else existing)"

text \<open>The body of \<open>ratingsData.forEach\<close>. The source mutates the record held by the
  map; the model stores the changed record under the same key.\<close>

definition ratingStep :: "date_env \<Rightarrow> item \<Rightarrow> state \<Rightarrow> state" where
  "ratingStep env it st =
    (case (if type it = JStr ''movie'' then movieWithIds it else None) of
       Some (m, i) \<Rightarrow>
         (let traktId = trakt i;
              rating = js_or (rating it) (JStr '''');
              ratedAtDate = formatDate env (rated_at it);
              ratedAtTimestamp = rated_at it
          in (case map_of (mergedMovies st) traktId of
                Some existing \<Rightarrow>
                  st\<lparr>mergedMovies :=
                        AList.update traktId
                          (mergeDate env ratedAtTimestamp (fst ratedAtDate)
                             (existing\<lparr>Rating10 := rating\<rparr>))
                          (mergedMovies st),
                      ratingsMergedCount := ratingsMergedCount st + 1,
                      warnings := warnings st @ snd ratedAtDate\<rparr>
              | None \<Rightarrow>
                  (let movieInfo = \<lparr>traktId = traktId,
                                    imdbID = js_or (imdb i) (JStr ''''),
                                    tmdbID = js_or (tmdb i) (JStr ''''),
                                    Title = js_or (title m) (JStr ''''),
                                    Year = js_or (year m) (JStr ''''),
                                    Rating10 = rating,
                                    WatchedDate = fst ratedAtDate,
                                    Rewatch = False,
                                    lastWatchedTimestamp = JNull\<rparr>
                   in st\<lparr>mergedMovies := AList.update traktId movieInfo (mergedMovies st),
                          ratingsAddedCount := ratingsAddedCount st + 1,
                          warnings := warnings st @ snd ratedAtDate\<rparr>)))
     | None \<Rightarrow> st\<lparr>warnings := warnings st @ [SkippingRating it]\<rparr>)"

text \<open>Both passes, from the empty map.\<close>

definition runMerge :: "date_env \<Rightarrow> item list \<Rightarrow> item list \<Rightarrow> state" where
  "runMerge env watchedData ratingsData =
    fold (ratingStep env) ratingsData (fold (watchedStep env) watchedData initState)"

record csv_record =
  out_imdbID :: jsval
  out_tmdbID :: jsval
  out_Title :: jsval
  out_Year :: jsval
  out_Rating10 :: jsval
  out_WatchedDate :: string
  out_Rewatch :: string

definition toRecord :: "movieInfo \<Rightarrow> csv_record" where
  "toRecord m =
    \<lparr>out_imdbID = imdbID m, out_tmdbID = tmdbID m, out_Title = Title m, out_Year = Year m,
     out_Rating10 = Rating10 m, out_WatchedDate = WatchedDate m,
     out_Rewatch = (if Rewatch m then ''Yes'' else ''No'')\<rparr>"

text \<open>\<open>Array.from(mergedMovies.values()).map(...)\<close>\<close>

definition records :: "date_env \<Rightarrow> item list \<Rightarrow> item list \<Rightarrow> csv_record list" where
  "records env watchedData ratingsData =
    map toRecord (map snd (mergedMovies (runMerge env watchedData ratingsData)))"

text \<open>
  The elements of the two parsed arrays. The loops read \<open>item.movie\<close> (line 68) and
  \<open>item.type\<close> (line 94) before any test of \<open>item\<close> itself, so on an element
  that is \<open>null\<close> the read throws a \<open>TypeError\<close>; nothing catches it, the loop
  and \<open>processTraktData\<close> end there and no record is written. An element that is an
  object is an entry as above. (A number, a string, a boolean or an array has none of the
  properties read and fares as the object without them.)
\<close>

datatype element = NullElement | ObjectElement item

datatype error = TypeError

text \<open>The callbacks of the two \<open>forEach\<close> calls, on an array element.\<close>

definition watchedCallback :: "date_env \<Rightarrow> element \<Rightarrow> state \<Rightarrow> error + state" where
  "watchedCallback env el st =
    (case el of
       NullElement \<Rightarrow> Inl TypeError
     | ObjectElement it \<Rightarrow> Inr (watchedStep env it st))"

definition ratingCallback :: "date_env \<Rightarrow> element \<Rightarrow> state \<Rightarrow> error + state" where
  "ratingCallback env el st =
    (case el of
       NullElement \<Rightarrow> Inl TypeError
     | ObjectElement it \<Rightarrow> Inr (ratingStep env it st))"

text \<open>\<open>Array.prototype.forEach\<close> with a callback that may throw: the first throw ends
  the loop.\<close>

fun forEach :: "('a \<Rightarrow> state \<Rightarrow> error + state) \<Rightarrow> 'a list \<Rightarrow> state \<Rightarrow> error + state" where
  "forEach f [] st = Inr st"
| "forEach f (x # xs) st =
     (case f x st of
        Inl err \<Rightarrow> Inl err
      | Inr st' \<Rightarrow> forEach f xs st')"

text \<open>
  \<open>processTraktData\<close> up to the records it hands to the CSV writer. \<open>readJsonFile\<close>
  returns \<open>null\<close> for a file it could not read or parse (\<open>None\<close> here), and then
  the function returns with nothing written (\<open>Inr None\<close>). \<open>Inl\<close> is the error
  thrown out of a loop, \<open>Inr (Some rs)\<close> the records for the writer.
\<close>

definition processTraktData ::
  "date_env \<Rightarrow> element list option \<Rightarrow> element list option \<Rightarrow>
     error + csv_record list option" where
  "processTraktData env watchedData ratingsData =
    (case watchedData of
       None \<Rightarrow> Inr None
     | Some ws \<Rightarrow>
         (case ratingsData of
            None \<Rightarrow> Inr None
          | Some rs \<Rightarrow>
              (case forEach (watchedCallback env) ws initState of
                 Inl err \<Rightarrow> Inl err
               | Inr st1 \<Rightarrow>
                   (case forEach (ratingCallback env) rs st1 of
                      Inl err \<Rightarrow> Inl err
                    | Inr st2 \<Rightarrow> Inr (Some (map toRecord (map snd (mergedMovies st2))))))))"

section \<open>Notions used to state the properties\<close>

text \<open>The join key under which a watched entry is stored, if the guard lets it in.\<close>

definition watchedKey :: "item \<Rightarrow> jsval option" where
  "watchedKey it = (case movieWithIds it of None \<Rightarrow> None | Some (m, i) \<Rightarrow> Some (trakt i))"

text \<open>The same for a rating entry, whose guard also asks for the type \<open>"movie"\<close>.\<close>

definition ratingKey :: "item \<Rightarrow> jsval option" where
  "ratingKey it = (if type it = JStr ''movie'' then watchedKey it else None)"

text \<open>The keys of the entries a pass lets in, in input order.\<close>

definition watchedKeys :: "item list \<Rightarrow> jsval list" where
  "watchedKeys ws = List.map_filter watchedKey ws"

definition ratingKeys :: "item list \<Rightarrow> jsval list" where
  "ratingKeys rs = List.map_filter ratingKey rs"

text \<open>The last entry of a list that is let in under key \<open>k\<close>.\<close>

definition lastWith :: "(item \<Rightarrow> jsval option) \<Rightarrow> jsval \<Rightarrow> item list \<Rightarrow> item option" where
  "lastWith key k xs = find (\<lambda>x. key x = Some k) (rev xs)"

text \<open>A list without its repetitions, every element where it first occurs.\<close>

fun firstSeen :: "'a list \<Rightarrow> 'a list" where
  "firstSeen [] = []"
| "firstSeen (x # xs) = x # filter (\<lambda>y. y \<noteq> x) (firstSeen xs)"

definition addKey :: "'a \<Rightarrow> 'a list \<Rightarrow> 'a list" where
  "addKey k ks = (if k \<in> set ks then ks else ks @ [k])"

definition keysOf :: "state \<Rightarrow> jsval list" where
  "keysOf st = map fst (mergedMovies st)"

abbreviation entry :: "state \<Rightarrow> jsval \<Rightarrow> movieInfo option" where
  "entry st k \<equiv> map_of (mergedMovies st) k"

text \<open>The output record made from the unified record of key \<open>k\<close>.\<close>

definition outputRecord :: "date_env \<Rightarrow> item list \<Rightarrow> item list \<Rightarrow> jsval \<Rightarrow> csv_record option" where
  "outputRecord env ws rs k = map_option toRecord (entry (runMerge env ws rs) k)"

text \<open>A timestamp is valid when it is present and \<open>new Date\<close> accepts it.\<close>

definition validDate :: "date_env \<Rightarrow> jsval \<Rightarrow> bool" where
  "validDate env v = (truthy v \<and> getTime env v \<noteq> None)"

text \<open>What a run keeps apart from the warnings it printed.\<close>

definition core :: "state \<Rightarrow> (jsval \<times> movieInfo) list \<times> nat \<times> nat" where
  "core st = (mergedMovies st, ratingsMergedCount st, ratingsAddedCount st)"

text \<open>The warnings one entry makes a pass print.\<close>

definition watchedWarnings :: "date_env \<Rightarrow> item \<Rightarrow> warning list" where
  "watchedWarnings env it =
    (case watchedKey it of
       None \<Rightarrow> [SkippingWatched it]
     | Some k \<Rightarrow> snd (formatDate env (last_watched_at it)))"

definition ratingWarnings :: "date_env \<Rightarrow> item \<Rightarrow> warning list" where
  "ratingWarnings env it =
    (case ratingKey it of
       None \<Rightarrow> [SkippingRating it]
     | Some k \<Rightarrow> snd (formatDate env (rated_at it)))"

section \<open>A sample environment and sample entries\<close>

text \<open>
  The calendar day of a time value (milliseconds since the epoch) in UTC, by the usual
  computation over 400-year eras; the month is counted from 0 as \<open>getMonth\<close> does.
\<close>

definition utcCivil :: "int \<Rightarrow> int \<times> nat \<times> nat" where
  "utcCivil t =
    (let z = t div 86400000 + 719468;
         era = z div 146097;
         doe = z mod 146097;
         yoe = (doe - doe div 1460 + doe div 36524 - doe div 146096) div 365;
         doy = doe - (365 * yoe + yoe div 4 - yoe div 100);
         mp = (5 * doy + 2) div 153;
         d = doy - (153 * mp + 2) div 5 + 1;
         m = (if mp < 10 then mp + 3 else mp - 9);
         y = yoe + era * 400 + (if m \<le> 2 then 1 else 0)
     in (y, nat (m - 1), nat d))"

text \<open>
  \<open>new Date(v).getTime()\<close> on the values the examples use: the two ISO timestamps of
  the specification's scenario, numbers, booleans and \<open>null\<close>; a string that is no
  timestamp, such as \<open>"garbage"\<close>, is an invalid date.
\<close>

definition sampleGetTime :: "jsval \<Rightarrow> int option" where
  "sampleGetTime v =
    (case v of
       JUndefined \<Rightarrow> None
     | JNull \<Rightarrow> Some 0
     | JBool b \<Rightarrow> Some (if b then 1 else 0)
     | JNum n \<Rightarrow> if \<bar>n\<bar> \<le> 8640000000000000 then Some n else None
     | JStr s \<Rightarrow>
         if s = ''2021-01-01T00:00:00Z'' then Some 1609459200000
         else if s = ''2021-06-01T00:00:00Z'' then Some 1622505600000
         else None)"

definition sampleEnv :: date_env where
  "sampleEnv =
    \<lparr>getTime = sampleGetTime,
     getFullYear = (\<lambda>t. fst (utcCivil t)),
     getMonth = (\<lambda>t. fst (snd (utcCivil t))),
     getDate = (\<lambda>t. snd (snd (utcCivil t)))\<rparr>"

text \<open>An object with none of the properties the source reads.\<close>

definition emptyItem :: item where
  "emptyItem =
    \<lparr>movie = None, last_watched_at = JUndefined, plays = None, type = JUndefined,
     rating = JUndefined, rated_at = JUndefined\<rparr>"

text \<open>\<open>{ids: {trakt: k}}\<close>\<close>

definition movieOf :: "jsval \<Rightarrow> movie_obj" where
  "movieOf k =
    \<lparr>ids = Some \<lparr>trakt = k, imdb = JUndefined, tmdb = JUndefined\<rparr>,
     title = JUndefined, year = JUndefined\<rparr>"

text \<open>The watched entry of the specification's scenario:
  \<open>{movie: {ids: {trakt: 1, imdb: "tt1"}, title: "A", year: 2000},
    last_watched_at: "2021-01-01T00:00:00Z", plays: 2}\<close>\<close>

definition exWatched :: item where
  "exWatched =
    emptyItem\<lparr>movie := Some \<lparr>ids = Some \<lparr>trakt = JNum 1, imdb = JStr ''tt1'', tmdb = JUndefined\<rparr>,
                               title = JStr ''A'', year = JNum 2000\<rparr>,
              last_watched_at := JStr ''2021-01-01T00:00:00Z'',
              plays := Some 2\<rparr>"

text \<open>Its rating entry:
  \<open>{type: "movie", movie: {ids: {trakt: 1}}, rating: 8, rated_at: "2021-06-01T00:00:00Z"}\<close>\<close>

definition exRating :: item where
  "exRating =
    emptyItem\<lparr>type := JStr ''movie'', movie := Some (movieOf (JNum 1)), rating := JNum 8,
              rated_at := JStr ''2021-06-01T00:00:00Z''\<rparr>"

text \<open>\<open>{type: "movie", movie: {ids: {trakt: 1}}}\<close>: a rating entry without a rating.\<close>

definition exRatingNoValue :: item where
  "exRatingNoValue = emptyItem\<lparr>type := JStr ''movie'', movie := Some (movieOf (JNum 1))\<rparr>"

text \<open>\<open>{type: "movie", movie: {ids: {trakt: 1}}, rating: 7, rated_at: "garbage"}\<close>\<close>

definition exRatingBadDate :: item where
  "exRatingBadDate =
    emptyItem\<lparr>type := JStr ''movie'', movie := Some (movieOf (JNum 1)), rating := JNum 7,
              rated_at := JStr ''garbage''\<rparr>"

text \<open>\<open>{type: "movie", movie: {ids: {trakt: 2}}, rating: 5}\<close>\<close>

definition exRatingOther :: item where
  "exRatingOther =
    emptyItem\<lparr>type := JStr ''movie'', movie := Some (movieOf (JNum 2)), rating := JNum 5\<rparr>"

text \<open>\<open>{movie: {title: "B"}, plays: 3}\<close>: an entry without its identifier block.\<close>

definition exNoIds :: item where
  "exNoIds =
    emptyItem\<lparr>movie := Some \<lparr>ids = None, title = JStr ''B'', year = JUndefined\<rparr>,
              plays := Some 3\<rparr>"

text \<open>\<open>{type: "show", movie: {ids: {trakt: 3}}, rating: 9}\<close>\<close>

definition exShow :: item where
  "exShow =
    emptyItem\<lparr>type := JStr ''show'', movie := Some (movieOf (JNum 3)), rating := JNum 9\<rparr>"

text \<open>\<open>{type: "movie", movie: {ids: {trakt: k}}, rating: 6, plays: 2}\<close> for a key
  \<open>k\<close> the examples choose.\<close>

definition exKeyed :: "jsval \<Rightarrow> item" where
  "exKeyed k =
    emptyItem\<lparr>type := JStr ''movie'', movie := Some (movieOf k), rating := JNum 6,
              plays := Some 2\<rparr>"

section \<open>The records handed to the writer\<close>

lemma forEach_watched_objects:
  "forEach (watchedCallback env) (map ObjectElement ws) st = Inr (fold (watchedStep env) ws st)"
  by (induction ws arbitrary: st) (simp_all add: watchedCallback_def)

lemma forEach_rating_objects:
  "forEach (ratingCallback env) (map ObjectElement rs) st = Inr (fold (ratingStep env) rs st)"
  by (induction rs arbitrary: st) (simp_all add: ratingCallback_def)

lemma processTraktData_records:
  "processTraktData env (Some (map ObjectElement ws)) (Some (map ObjectElement rs)) =
     Inr (Some (records env ws rs))"
  by (simp add: processTraktData_def forEach_watched_objects forEach_rating_objects
      records_def runMerge_def)

lemma processTraktData_null:
  "processTraktData env None ratingsData = Inr None"
  "processTraktData env watchedData None = Inr None"
  by (simp_all add: processTraktData_def split: option.splits)

lemma forEach_watched_null:
  "NullElement \<in> set els \<Longrightarrow> forEach (watchedCallback env) els st = Inl TypeError"
proof (induction els arbitrary: st)
  case Nil
  then show ?case by simp
next
  case (Cons el els)
  show ?case
  proof (cases el)
    case NullElement
    then show ?thesis by (simp add: watchedCallback_def)
  next
    case (ObjectElement it)
    with Cons.prems have "NullElement \<in> set els" by simp
    with Cons.IH ObjectElement show ?thesis by (simp add: watchedCallback_def)
  qed
qed

lemma forEach_rating_null:
  "NullElement \<in> set els \<Longrightarrow> forEach (ratingCallback env) els st = Inl TypeError"
proof (induction els arbitrary: st)
  case Nil
  then show ?case by simp
next
  case (Cons el els)
  show ?case
  proof (cases el)
    case NullElement
    then show ?thesis by (simp add: ratingCallback_def)
  next
    case (ObjectElement it)
    with Cons.prems have "NullElement \<in> set els" by simp
    with Cons.IH ObjectElement show ?thesis by (simp add: ratingCallback_def)
  qed
qed

section \<open>The order and the set of keys\<close>

lemma keysOf_watchedStep:
  "keysOf (watchedStep env it st) =
     (case watchedKey it of None \<Rightarrow> keysOf st | Some k \<Rightarrow> addKey k (keysOf st))"
  by (simp add: keysOf_def watchedStep_def watchedKey_def addKey_def Let_def update_keys
      split: option.splits prod.splits)

lemma keysOf_ratingStep:
  "keysOf (ratingStep env it st) =
     (case ratingKey it of None \<Rightarrow> keysOf st | Some k \<Rightarrow> addKey k (keysOf st))"
  by (simp add: keysOf_def ratingStep_def ratingKey_def watchedKey_def addKey_def Let_def
      update_keys split: option.splits prod.splits)

lemma keysOf_fold_watched:
  "keysOf (fold (watchedStep env) ws st) = fold addKey (watchedKeys ws) (keysOf st)"
  unfolding watchedKeys_def
  by (induction ws arbitrary: st)
    (simp_all add: keysOf_watchedStep map_filter_simps split: option.splits)

lemma keysOf_fold_rating:
  "keysOf (fold (ratingStep env) rs st) = fold addKey (ratingKeys rs) (keysOf st)"
  unfolding ratingKeys_def
  by (induction rs arbitrary: st)
    (simp_all add: keysOf_ratingStep map_filter_simps split: option.splits)

lemma keysOf_initState: "keysOf initState = []"
  by (simp add: keysOf_def initState_def)

lemma keysOf_runMerge:
  "keysOf (runMerge env ws rs) = fold addKey (watchedKeys ws @ ratingKeys rs) []"
  by (simp add: runMerge_def keysOf_fold_rating keysOf_fold_watched keysOf_initState)

lemma set_fold_addKey: "set (fold addKey ks acc) = set acc \<union> set ks"
  by (induction ks arbitrary: acc) (auto simp: addKey_def)

lemma distinct_fold_addKey: "distinct acc \<Longrightarrow> distinct (fold addKey ks acc)"
  by (induction ks arbitrary: acc) (auto simp: addKey_def)

lemma set_firstSeen: "set (firstSeen ks) = set ks"
  by (induction ks) auto

lemma distinct_firstSeen: "distinct (firstSeen ks)"
  by (induction ks) (auto simp: set_firstSeen)

lemma fold_addKey_firstSeen:
  "fold addKey ks acc = acc @ filter (\<lambda>k. k \<notin> set acc) (firstSeen ks)"
proof (induction ks arbitrary: acc)
  case Nil
  show ?case by simp
next
  case (Cons x xs)
  show ?case
  proof (cases "x \<in> set acc")
    case True
    have "filter (\<lambda>k. k \<notin> set acc) (filter (\<lambda>y. y \<noteq> x) (firstSeen xs)) =
          filter (\<lambda>k. k \<notin> set acc) (firstSeen xs)"
      using True by (auto intro: filter_cong)
    with True Cons.IH [of acc] show ?thesis by (simp add: addKey_def)
  next
    case False
    have "filter (\<lambda>k. k \<notin> set (acc @ [x])) (firstSeen xs) =
          filter (\<lambda>k. k \<notin> set acc) (filter (\<lambda>y. y \<noteq> x) (firstSeen xs))"
      by (auto intro: filter_cong)
    with False Cons.IH [of "acc @ [x]"] show ?thesis by (simp add: addKey_def)
  qed
qed

lemma firstSeen_append:
  "firstSeen (xs @ ys) = firstSeen xs @ filter (\<lambda>k. k \<notin> set xs) (firstSeen ys)"
proof -
  have a: "fold addKey (xs @ ys) [] = firstSeen (xs @ ys)"
    using fold_addKey_firstSeen [of "xs @ ys" "[]"] by simp
  have b: "fold addKey xs [] = firstSeen xs"
    using fold_addKey_firstSeen [of xs "[]"] by simp
  have c: "fold addKey ys (firstSeen xs) =
           firstSeen xs @ filter (\<lambda>k. k \<notin> set xs) (firstSeen ys)"
    using fold_addKey_firstSeen [of ys "firstSeen xs"] by (simp add: set_firstSeen)
  have "fold addKey (xs @ ys) [] = fold addKey ys (fold addKey xs [])" by simp
  with a b c show ?thesis by simp
qed

section \<open>The record stored under a key\<close>

lemma watchedStep_skip:
  "watchedKey it = None \<Longrightarrow>
   watchedStep env it st = st\<lparr>warnings := warnings st @ [SkippingWatched it]\<rparr>"
  by (simp add: watchedStep_def watchedKey_def split: option.splits prod.splits)

lemma ratingStep_skip:
  "ratingKey it = None \<Longrightarrow>
   ratingStep env it st = st\<lparr>warnings := warnings st @ [SkippingRating it]\<rparr>"
  by (simp add: ratingStep_def ratingKey_def watchedKey_def
      split: option.splits prod.splits if_splits)

lemma entry_watchedStep_other:
  "watchedKey it \<noteq> Some k \<Longrightarrow> entry (watchedStep env it st) k = entry st k"
  by (auto simp add: watchedStep_def watchedKey_def Let_def update_conv'
      split: option.splits prod.splits)

lemma entry_ratingStep_other:
  "ratingKey it \<noteq> Some k \<Longrightarrow> entry (ratingStep env it st) k = entry st k"
  by (auto simp add: ratingStep_def ratingKey_def watchedKey_def Let_def update_conv'
      split: option.splits prod.splits if_splits)

lemma entry_watchedStep_same:
  "watchedKey it = Some k \<Longrightarrow>
   \<exists>info. entry (watchedStep env it st) k = Some info \<and>
     traktId info = k \<and>
     Rating10 info = JStr '''' \<and>
     WatchedDate info = fst (formatDate env (last_watched_at it)) \<and>
     Rewatch info = (playsOr0 it > 1) \<and>
     lastWatchedTimestamp info = last_watched_at it"
  by (auto simp add: watchedStep_def watchedKey_def Let_def update_conv'
      split: option.splits prod.splits)

lemma entry_ratingStep_merge:
  "ratingKey it = Some k \<Longrightarrow> entry st k = Some existing \<Longrightarrow>
   entry (ratingStep env it st) k =
     Some (mergeDate env (rated_at it) (fst (formatDate env (rated_at it)))
            (existing\<lparr>Rating10 := js_or (rating it) (JStr '''')\<rparr>))"
  by (auto simp add: ratingStep_def ratingKey_def watchedKey_def Let_def update_conv'
      split: option.splits prod.splits if_splits)

lemma entry_ratingStep_add:
  "ratingKey it = Some k \<Longrightarrow> entry st k = None \<Longrightarrow>
   \<exists>info. entry (ratingStep env it st) k = Some info \<and>
     traktId info = k \<and>
     Rating10 info = js_or (rating it) (JStr '''') \<and>
     WatchedDate info = fst (formatDate env (rated_at it)) \<and>
     Rewatch info = False \<and>
     lastWatchedTimestamp info = JNull"
  by (auto simp add: ratingStep_def ratingKey_def watchedKey_def Let_def update_conv'
      split: option.splits prod.splits if_splits)

lemma mergeDate_frame:
  "mergeDate env ts d ex = ex\<lparr>WatchedDate := WatchedDate (mergeDate env ts d ex)\<rparr>"
  by (simp add: mergeDate_def Let_def)

lemma entry_fold_watched_other:
  "\<forall>x\<in>set ws. watchedKey x \<noteq> Some k \<Longrightarrow>
   entry (fold (watchedStep env) ws st) k = entry st k"
  by (induction ws arbitrary: st) (simp_all add: entry_watchedStep_other)


section \<open>Every record carries its key\<close>

lemma mergeDate_fields:
  "traktId (mergeDate env ts d ex) = traktId ex"
  "imdbID (mergeDate env ts d ex) = imdbID ex"
  "tmdbID (mergeDate env ts d ex) = tmdbID ex"
  "Title (mergeDate env ts d ex) = Title ex"
  "Year (mergeDate env ts d ex) = Year ex"
  "Rating10 (mergeDate env ts d ex) = Rating10 ex"
  "Rewatch (mergeDate env ts d ex) = Rewatch ex"
  "lastWatchedTimestamp (mergeDate env ts d ex) = lastWatchedTimestamp ex"
  by (simp_all add: mergeDate_def Let_def)

lemma keyed_watchedStep:
  assumes "\<And>k i. entry st k = Some i \<Longrightarrow> traktId i = k"
    and "entry (watchedStep env it st) k = Some i"
  shows "traktId i = k"
proof (cases "watchedKey it = Some k")
  case True
  with entry_watchedStep_same [of it k env st] assms(2) show ?thesis by auto
next
  case False
  with assms show ?thesis by (simp add: entry_watchedStep_other)
qed

lemma keyed_ratingStep:
  assumes "\<And>k i. entry st k = Some i \<Longrightarrow> traktId i = k"
    and "entry (ratingStep env it st) k = Some i"
  shows "traktId i = k"
proof (cases "ratingKey it = Some k")
  case True
  show ?thesis
  proof (cases "entry st k")
    case None
    with True entry_ratingStep_add [of it k st env] assms(2) show ?thesis by auto
  next
    case (Some ex)
    with True entry_ratingStep_merge [of it k st ex env] assms(2)
    have "traktId i = traktId ex" by (auto simp add: mergeDate_fields)
    with assms(1) [OF Some] show ?thesis by simp
  qed
next
  case False
  with assms show ?thesis by (simp add: entry_ratingStep_other)
qed

lemma keyed_fold_watched:
  "(\<And>k i. entry st k = Some i \<Longrightarrow> traktId i = k) \<Longrightarrow>
   entry (fold (watchedStep env) ws st) k = Some i \<Longrightarrow> traktId i = k"
proof (induction ws arbitrary: st)
  case Nil
  then show ?case by simp
next
  case (Cons x xs)
  have "\<And>k i. entry (watchedStep env x st) k = Some i \<Longrightarrow> traktId i = k"
    using Cons.prems(1) by (rule keyed_watchedStep)
  from Cons.IH [OF this] Cons.prems(2) show ?case by simp
qed

lemma keyed_fold_rating:
  "(\<And>k i. entry st k = Some i \<Longrightarrow> traktId i = k) \<Longrightarrow>
   entry (fold (ratingStep env) rs st) k = Some i \<Longrightarrow> traktId i = k"
proof (induction rs arbitrary: st)
  case Nil
  then show ?case by simp
next
  case (Cons x xs)
  have "\<And>k i. entry (ratingStep env x st) k = Some i \<Longrightarrow> traktId i = k"
    using Cons.prems(1) by (rule keyed_ratingStep)
  from Cons.IH [OF this] Cons.prems(2) show ?case by simp
qed

lemma keyed_runMerge:
  assumes "entry (runMerge env ws rs) k = Some i"
  shows "traktId i = k"
proof -
  have init: "\<And>k i. entry initState k = Some i \<Longrightarrow> traktId i = k"
    by (simp add: initState_def)
  have "\<And>k i. entry (fold (watchedStep env) ws initState) k = Some i \<Longrightarrow> traktId i = k"
    using init by (rule keyed_fold_watched)
  then show ?thesis
    using assms unfolding runMerge_def by (rule keyed_fold_rating)
qed

lemma distinct_keysOf_runMerge: "distinct (keysOf (runMerge env ws rs))"
  by (simp add: keysOf_runMerge distinct_fold_addKey)

lemma traktId_runMerge:
  "map traktId (map snd (mergedMovies (runMerge env ws rs))) = keysOf (runMerge env ws rs)"
proof -
  have "traktId (snd p) = fst p" if "p \<in> set (mergedMovies (runMerge env ws rs))" for p
  proof -
    have "distinct (map fst (mergedMovies (runMerge env ws rs)))"
      using distinct_keysOf_runMerge [of env ws rs] by (simp add: keysOf_def)
    with that have "entry (runMerge env ws rs) (fst p) = Some (snd p)" by simp
    then show ?thesis by (rule keyed_runMerge)
  qed
  then show ?thesis by (simp add: keysOf_def)
qed

section \<open>The rating pass on one key\<close>

lemma lastWith_snoc:
  "lastWith key k (xs @ [x]) = (if key x = Some k then Some x else lastWith key k xs)"
  by (simp add: lastWith_def)

lemma lastWith_None: "lastWith key k xs = None \<longleftrightarrow> (\<forall>x\<in>set xs. key x \<noteq> Some k)"
  by (auto simp add: lastWith_def find_None_iff)

lemma ratingStep_rating:
  assumes "ratingKey it = Some k"
  shows "\<exists>info. entry (ratingStep env it st) k = Some info \<and>
           Rating10 info = js_or (rating it) (JStr '''')"
proof (cases "entry st k")
  case None
  with assms entry_ratingStep_add [of it k st env] show ?thesis by auto
next
  case (Some ex)
  with assms entry_ratingStep_merge [of it k st ex env] show ?thesis
    by (simp add: mergeDate_fields)
qed

lemma fold_rating_last:
  "lastWith ratingKey k rs = Some r \<Longrightarrow>
   \<exists>info. entry (fold (ratingStep env) rs st) k = Some info \<and>
     Rating10 info = js_or (rating r) (JStr '''')"
proof (induction rs rule: rev_induct)
  case Nil
  then show ?case by (simp add: lastWith_def)
next
  case (snoc x xs)
  show ?case
  proof (cases "ratingKey x = Some k")
    case True
    with snoc.prems have "r = x" by (simp add: lastWith_snoc)
    with True ratingStep_rating [of x k env "fold (ratingStep env) xs st"]
    show ?thesis by simp
  next
    case False
    with snoc.prems have "lastWith ratingKey k xs = Some r" by (simp add: lastWith_snoc)
    with snoc.IH False show ?thesis by (simp add: entry_ratingStep_other)
  qed
qed

lemma ratingStep_frame:
  assumes "entry st k = Some i"
  shows "\<exists>i'. entry (ratingStep env it st) k = Some i' \<and>
           i' = i\<lparr>Rating10 := Rating10 i', WatchedDate := WatchedDate i'\<rparr>"
proof (cases "ratingKey it = Some k")
  case True
  with assms entry_ratingStep_merge [of it k st i env] show ?thesis
    by (simp add: mergeDate_def Let_def)
next
  case False
  with assms show ?thesis by (simp add: entry_ratingStep_other)
qed

lemma fold_rating_frame:
  "entry st k = Some i \<Longrightarrow>
   \<exists>i'. entry (fold (ratingStep env) rs st) k = Some i' \<and>
     i' = i\<lparr>Rating10 := Rating10 i', WatchedDate := WatchedDate i'\<rparr>"
proof (induction rs arbitrary: st i)
  case Nil
  then show ?case by simp
next
  case (Cons x xs)
  from ratingStep_frame [OF Cons.prems, of env x]
  obtain i1 where i1: "entry (ratingStep env x st) k = Some i1"
    and f1: "i1 = i\<lparr>Rating10 := Rating10 i1, WatchedDate := WatchedDate i1\<rparr>" by blast
  from Cons.IH [OF i1]
  obtain i' where i': "entry (fold (ratingStep env) xs (ratingStep env x st)) k = Some i'"
    and f': "i' = i1\<lparr>Rating10 := Rating10 i', WatchedDate := WatchedDate i'\<rparr>" by blast
  have "i' = i\<lparr>Rating10 := Rating10 i', WatchedDate := WatchedDate i'\<rparr>"
    by (subst f', subst f1) simp
  with i' show ?case by simp
qed

section \<open>The watched pass on one key\<close>

lemma fold_watched_last:
  "lastWith watchedKey k ws = Some w \<Longrightarrow>
   \<exists>info. entry (fold (watchedStep env) ws st) k = Some info \<and>
     traktId info = k \<and>
     Rating10 info = JStr '''' \<and>
     WatchedDate info = fst (formatDate env (last_watched_at w)) \<and>
     Rewatch info = (playsOr0 w > 1) \<and>
     lastWatchedTimestamp info = last_watched_at w"
proof (induction ws rule: rev_induct)
  case Nil
  then show ?case by (simp add: lastWith_def)
next
  case (snoc x xs)
  show ?case
  proof (cases "watchedKey x = Some k")
    case True
    with snoc.prems have "w = x" by (simp add: lastWith_snoc)
    with True entry_watchedStep_same [of x k env "fold (watchedStep env) xs st"]
    show ?thesis by simp
  next
    case False
    with snoc.prems have "lastWith watchedKey k xs = Some w" by (simp add: lastWith_snoc)
    with snoc.IH False show ?thesis by (simp add: entry_watchedStep_other)
  qed
qed



section \<open>The rewatch flag\<close>

lemma rewatch_ratingStep:
  "(case entry (ratingStep env it st) k of None \<Rightarrow> False | Some i \<Rightarrow> Rewatch i) =
   (case entry st k of None \<Rightarrow> False | Some i \<Rightarrow> Rewatch i)"
proof (cases "ratingKey it = Some k")
  case True
  show ?thesis
  proof (cases "entry st k")
    case None
    with True entry_ratingStep_add [of it k st env] show ?thesis by auto
  next
    case (Some ex)
    with True entry_ratingStep_merge [of it k st ex env] show ?thesis
      by (simp add: mergeDate_fields)
  qed
next
  case False
  then show ?thesis by (simp add: entry_ratingStep_other)
qed

lemma rewatch_fold_rating:
  "(case entry (fold (ratingStep env) rs st) k of None \<Rightarrow> False | Some i \<Rightarrow> Rewatch i) =
   (case entry st k of None \<Rightarrow> False | Some i \<Rightarrow> Rewatch i)"
  by (induction rs arbitrary: st) (simp_all add: rewatch_ratingStep)

lemma playsOr0_gt1: "(playsOr0 w > 1) = (\<exists>n. plays w = Some n \<and> 1 < n)"
  by (auto simp add: playsOr0_def split: option.splits)

lemma rewatch_runMerge:
  assumes "entry (runMerge env ws rs) k = Some info"
  shows "Rewatch info = (\<exists>w n. lastWith watchedKey k ws = Some w \<and> plays w = Some n \<and> 1 < n)"
proof -
  let ?st = "fold (watchedStep env) ws initState"
  from assms rewatch_fold_rating [of env rs ?st k]
  have r: "Rewatch info = (case entry ?st k of None \<Rightarrow> False | Some i \<Rightarrow> Rewatch i)"
    by (simp add: runMerge_def)
  show ?thesis
  proof (cases "lastWith watchedKey k ws")
    case None
    then have "\<forall>x\<in>set ws. watchedKey x \<noteq> Some k" by (simp add: lastWith_None)
    then have "entry ?st k = entry initState k" by (rule entry_fold_watched_other)
    with r None show ?thesis by (simp add: initState_def)
  next
    case (Some w)
    from fold_watched_last [OF Some, of env initState]
    obtain i where "entry ?st k = Some i" and "Rewatch i = (playsOr0 w > 1)" by blast
    with r Some show ?thesis by (simp add: playsOr0_gt1)
  qed
qed

section \<open>The date decision\<close>





section \<open>Entries that are skipped\<close>

lemma core_watchedStep_cong:
  assumes "core st = core st'"
  shows "core (watchedStep env x st) = core (watchedStep env x st')"
proof -
  from assms have m: "mergedMovies st = mergedMovies st'"
    and a: "ratingsMergedCount st = ratingsMergedCount st'"
    and b: "ratingsAddedCount st = ratingsAddedCount st'"
    by (simp_all add: core_def)
  show ?thesis
  proof (cases "movieWithIds x")
    case None
    then show ?thesis by (simp add: core_def watchedStep_def m a b)
  next
    case (Some p)
    then show ?thesis by (cases p) (simp add: core_def watchedStep_def Let_def m a b)
  qed
qed

lemma core_ratingStep_cong:
  assumes "core st = core st'"
  shows "core (ratingStep env x st) = core (ratingStep env x st')"
proof -
  from assms have m: "mergedMovies st = mergedMovies st'"
    and a: "ratingsMergedCount st = ratingsMergedCount st'"
    and b: "ratingsAddedCount st = ratingsAddedCount st'"
    by (simp_all add: core_def)
  show ?thesis
  proof (cases "if type x = JStr ''movie'' then movieWithIds x else None")
    case None
    then show ?thesis by (simp add: core_def ratingStep_def m a b)
  next
    case (Some p)
    obtain mv i where p: "p = (mv, i)" by (cases p)
    show ?thesis
    proof (cases "entry st' (trakt i)")
      case None
      with Some p show ?thesis by (simp add: core_def ratingStep_def Let_def m a b)
    next
      case (Some ex)
      with \<open>(if type x = JStr ''movie'' then movieWithIds x else None) = Some p\<close> p
      show ?thesis by (simp add: core_def ratingStep_def Let_def m a b)
    qed
  qed
qed

lemma core_fold_watched_cong:
  "core st = core st' \<Longrightarrow>
   core (fold (watchedStep env) ws st) = core (fold (watchedStep env) ws st')"
proof (induction ws arbitrary: st st')
  case Nil
  then show ?case by simp
next
  case (Cons x xs)
  from Cons.prems have "core (watchedStep env x st) = core (watchedStep env x st')"
    by (rule core_watchedStep_cong)
  then have "core (fold (watchedStep env) xs (watchedStep env x st)) =
             core (fold (watchedStep env) xs (watchedStep env x st'))"
    by (rule Cons.IH)
  then show ?case by simp
qed

lemma core_fold_rating_cong:
  "core st = core st' \<Longrightarrow>
   core (fold (ratingStep env) rs st) = core (fold (ratingStep env) rs st')"
proof (induction rs arbitrary: st st')
  case Nil
  then show ?case by simp
next
  case (Cons x xs)
  from Cons.prems have "core (ratingStep env x st) = core (ratingStep env x st')"
    by (rule core_ratingStep_cong)
  then have "core (fold (ratingStep env) xs (ratingStep env x st)) =
             core (fold (ratingStep env) xs (ratingStep env x st'))"
    by (rule Cons.IH)
  then show ?case by simp
qed

lemma core_skip_watched:
  assumes "watchedKey e = None"
  shows "core (runMerge env (ws1 @ e # ws2) rs) = core (runMerge env (ws1 @ ws2) rs)"
proof -
  let ?st = "fold (watchedStep env) ws1 initState"
  have "core (watchedStep env e ?st) = core ?st"
    using assms by (simp add: watchedStep_skip core_def)
  then have "core (fold (watchedStep env) ws2 (watchedStep env e ?st)) =
             core (fold (watchedStep env) ws2 ?st)"
    by (rule core_fold_watched_cong)
  then have "core (fold (ratingStep env) rs (fold (watchedStep env) ws2 (watchedStep env e ?st))) =
             core (fold (ratingStep env) rs (fold (watchedStep env) ws2 ?st))"
    by (rule core_fold_rating_cong)
  then show ?thesis by (simp add: runMerge_def)
qed

lemma core_skip_rating:
  assumes "ratingKey e = None"
  shows "core (runMerge env ws (rs1 @ e # rs2)) = core (runMerge env ws (rs1 @ rs2))"
proof -
  let ?st = "fold (ratingStep env) rs1 (fold (watchedStep env) ws initState)"
  have "core (ratingStep env e ?st) = core ?st"
    using assms by (simp add: ratingStep_skip core_def)
  then have "core (fold (ratingStep env) rs2 (ratingStep env e ?st)) =
             core (fold (ratingStep env) rs2 ?st)"
    by (rule core_fold_rating_cong)
  then show ?thesis by (simp add: runMerge_def)
qed

lemma records_core:
  assumes "core (runMerge env ws rs) = core (runMerge env ws' rs')"
  shows "records env ws rs = records env ws' rs'"
proof -
  from assms have "mergedMovies (runMerge env ws rs) = mergedMovies (runMerge env ws' rs')"
    by (simp add: core_def)
  then show ?thesis by (simp only: records_def)
qed

lemma warnings_watchedStep:
  "warnings (watchedStep env x st) = warnings st @ watchedWarnings env x"
  by (simp add: watchedStep_def watchedWarnings_def watchedKey_def Let_def
      split: option.splits prod.splits)

lemma warnings_ratingStep:
  "warnings (ratingStep env x st) = warnings st @ ratingWarnings env x"
  by (simp add: ratingStep_def ratingWarnings_def ratingKey_def watchedKey_def Let_def
      split: option.splits prod.splits)

lemma warnings_fold_watched:
  "warnings (fold (watchedStep env) ws st) = warnings st @ concat (map (watchedWarnings env) ws)"
  by (induction ws arbitrary: st) (simp_all add: warnings_watchedStep)

lemma warnings_fold_rating:
  "warnings (fold (ratingStep env) rs st) = warnings st @ concat (map (ratingWarnings env) rs)"
  by (induction rs arbitrary: st) (simp_all add: warnings_ratingStep)

lemma warnings_runMerge:
  "warnings (runMerge env ws rs) =
     concat (map (watchedWarnings env) ws) @ concat (map (ratingWarnings env) rs)"
  by (simp add: runMerge_def warnings_fold_rating warnings_fold_watched initState_def)

section \<open>The output, key by key\<close>

lemma map_the_map_of:
  "distinct (map fst al) \<Longrightarrow> map (\<lambda>k. the (map_of al k)) (map fst al) = map snd al"
proof (induction al)
  case Nil
  show ?case by simp
next
  case (Cons p al)
  obtain k v where p: "p = (k, v)" by (cases p)
  from Cons.prems p have "k \<notin> fst ` set al" and d: "distinct (map fst al)" by auto
  then have "map (\<lambda>k'. the (map_of ((k, v) # al) k')) (map fst al) =
             map (\<lambda>k'. the (map_of al k')) (map fst al)"
    by (intro map_cong) auto
  with Cons.IH [OF d] p show ?case by simp
qed

lemma records_by_key:
  "records env ws rs =
     map (\<lambda>k. the (outputRecord env ws rs k)) (keysOf (runMerge env ws rs))"
proof -
  let ?M = "mergedMovies (runMerge env ws rs)"
  have d: "distinct (map fst ?M)"
    using distinct_keysOf_runMerge [of env ws rs] by (simp add: keysOf_def)
  have "\<And>k. k \<in> set (map fst ?M) \<Longrightarrow>
          the (outputRecord env ws rs k) = toRecord (the (map_of ?M k))"
  proof -
    fix k assume "k \<in> set (map fst ?M)"
    then obtain v where "map_of ?M k = Some v"
      by (metis map_of_eq_None_iff not_Some_eq set_map)
    then show "the (outputRecord env ws rs k) = toRecord (the (map_of ?M k))"
      by (simp add: outputRecord_def)
  qed
  then have "map (\<lambda>k. the (outputRecord env ws rs k)) (map fst ?M) =
             map (\<lambda>k. toRecord (the (map_of ?M k))) (map fst ?M)"
    by (intro map_cong) auto
  also have "\<dots> = map toRecord (map (\<lambda>k. the (map_of ?M k)) (map fst ?M))"
    by simp
  also have "\<dots> = map toRecord (map snd ?M)"
    using map_the_map_of [OF d] by simp
  finally show ?thesis by (simp add: records_def keysOf_def)
qed

lemma keysOf_order:
  "keysOf (runMerge env ws rs) =
     firstSeen (watchedKeys ws) @
     filter (\<lambda>k. k \<notin> set (watchedKeys ws)) (firstSeen (ratingKeys rs))"
proof -
  have "fold addKey (watchedKeys ws @ ratingKeys rs) [] = firstSeen (watchedKeys ws @ ratingKeys rs)"
    using fold_addKey_firstSeen [of "watchedKeys ws @ ratingKeys rs" "[]"] by simp
  then show ?thesis by (simp add: keysOf_runMerge firstSeen_append)
qed

section \<open>The sample run\<close>

lemma utcCivil_samples:
  "utcCivil 1609459200000 = (2021, 0, 1)" "utcCivil 1622505600000 = (2021, 5, 1)"
  by code_simp+

lemma String_nat_samples:
  "String_nat 2021 = ''2021''" "String_nat (Suc 0) = ''1''" "String_nat 6 = ''6''"
  by (simp_all add: String_nat.simps [of 2021] String_nat.simps [of 202]
      String_nat.simps [of 20] String_nat.simps [of 2] String_nat.simps [of "Suc 0"]
      String_nat.simps [of 6] digit_def)

lemma getTime_samples:
  "getTime sampleEnv (JStr ''2021-01-01T00:00:00Z'') = Some 1609459200000"
  "getTime sampleEnv (JStr ''2021-06-01T00:00:00Z'') = Some 1622505600000"
  "getTime sampleEnv (JStr ''garbage'') = None"
  "getTime sampleEnv JUndefined = None"
  by (simp_all add: sampleEnv_def sampleGetTime_def)

lemma formatDate_samples:
  "formatDate sampleEnv (JStr ''2021-01-01T00:00:00Z'') = (''2021-01-01'', [])"
  "formatDate sampleEnv (JStr ''2021-06-01T00:00:00Z'') = (''2021-06-01'', [])"
  "formatDate sampleEnv (JStr ''garbage'') = ('''', [InvalidDate (JStr ''garbage'')])"
  "formatDate sampleEnv JUndefined = ('''', [])"
  by (simp_all add: formatDate_def getTime_samples utcCivil_samples
      String_int_def padStart_def String_nat_samples)
    (simp_all add: sampleEnv_def utcCivil_samples String_nat_samples)

lemma dateGreater_samples:
  "dateGreater sampleEnv (JStr ''2021-06-01T00:00:00Z'') (JStr ''2021-01-01T00:00:00Z'')"
  "\<not> dateGreater sampleEnv (JStr ''garbage'') (JStr ''2021-01-01T00:00:00Z'')"
  by (simp_all add: dateGreater_def getTime_samples)

lemma validDate_samples:
  "validDate sampleEnv (JStr ''2021-01-01T00:00:00Z'')"
  "validDate sampleEnv (JStr ''2021-06-01T00:00:00Z'')"
  "\<not> validDate sampleEnv (JStr ''garbage'')"
  "\<not> validDate sampleEnv JUndefined"
  by (simp_all add: validDate_def getTime_samples)

lemmas sample_items = emptyItem_def movieOf_def exWatched_def exRating_def
  exRatingNoValue_def exRatingBadDate_def exRatingOther_def exNoIds_def exShow_def
  exKeyed_def

lemmas key_defs = watchedKey_def ratingKey_def watchedKeys_def ratingKeys_def
  movieWithIds_def map_filter_simps lastWith_def

lemmas run_defs = runMerge_def initState_def watchedStep_def ratingStep_def movieWithIds_def
  mergeDate_def js_or_def playsOr0_def Let_def records_def toRecord_def outputRecord_def

lemmas sample_dates = formatDate_samples dateGreater_samples validDate_samples getTime_samples

section \<open>Join keys\<close>

text \<open>
  C1. Every join key that an accepted entry of either input carries has exactly one record
  in the unified collection and so in the output, and no key has two: the keys of the
  collection are distinct, they are the keys of the accepted watched entries together
  with those of the accepted rating entries, every record is stored under its own
  \<open>traktId\<close>, and the output is the projection of the records, one for one, so it has
  as many records as there are distinct accepted keys.
\<close>

theorem join_keys_once:
  "distinct (map fst (mergedMovies (runMerge env ws rs))) \<and>
   set (map fst (mergedMovies (runMerge env ws rs))) = set (watchedKeys ws) \<union> set (ratingKeys rs) \<and>
   map traktId (map snd (mergedMovies (runMerge env ws rs))) =
     map fst (mergedMovies (runMerge env ws rs)) \<and>
   records env ws rs = map toRecord (map snd (mergedMovies (runMerge env ws rs))) \<and>
   length (records env ws rs) = card (set (watchedKeys ws) \<union> set (ratingKeys rs))"
proof -
  let ?ks = "map fst (mergedMovies (runMerge env ws rs))"
  have ks: "?ks = fold addKey (watchedKeys ws @ ratingKeys rs) []"
    using keysOf_runMerge [of env ws rs] by (simp add: keysOf_def)
  have d: "distinct ?ks"
    using distinct_keysOf_runMerge [of env ws rs] by (simp add: keysOf_def)
  have s: "set ?ks = set (watchedKeys ws) \<union> set (ratingKeys rs)"
    unfolding ks by (simp add: set_fold_addKey)
  have t: "map traktId (map snd (mergedMovies (runMerge env ws rs))) = ?ks"
    using traktId_runMerge [of env ws rs] by (simp add: keysOf_def)
  have r: "records env ws rs = map toRecord (map snd (mergedMovies (runMerge env ws rs)))"
    by (simp add: records_def)
  have "length (records env ws rs) = length ?ks" by (simp add: records_def)
  also have "\<dots> = card (set ?ks)" by (rule distinct_card [OF d, symmetric])
  finally have l: "length (records env ws rs) = card (set (watchedKeys ws) \<union> set (ratingKeys rs))"
    using s by simp
  from d s t r l show ?thesis by blast
qed

theorem join_keys_once_witness:
  "map fst (mergedMovies (runMerge sampleEnv [exWatched, exNoIds, exWatched]
      [exRating, exRatingOther, exShow, exRatingOther])) = [JNum 1, JNum 2] \<and>
   length (records sampleEnv [exWatched, exNoIds, exWatched]
      [exRating, exRatingOther, exShow, exRatingOther]) = 2"
proof -
  let ?ws = "[exWatched, exNoIds, exWatched]"
  let ?rs = "[exRating, exRatingOther, exShow, exRatingOther]"
  have c: "card (set (watchedKeys ?ws) \<union> set (ratingKeys ?rs)) = 2"
    by (simp add: sample_items key_defs card_insert_if)
  have k: "map fst (mergedMovies (runMerge sampleEnv ?ws ?rs)) = [JNum 1, JNum 2]"
    by (simp add: sample_items run_defs sample_dates)
  from join_keys_once [of sampleEnv ?ws ?rs]
  have "length (records sampleEnv ?ws ?rs) = card (set (watchedKeys ?ws) \<union> set (ratingKeys ?rs))"
    by (elim conjE)
  from this c have "length (records sampleEnv ?ws ?rs) = 2" by (rule trans)
  with k show ?thesis by (rule conjI)
qed

section \<open>The date a merging rating entry leaves\<close>

text \<open>
  The rule the merge branch follows. The first test asks whether \<open>rated_at\<close> is
  present (truthy), not whether it is a valid date: the watched date becomes the formatted
  \<open>rated_at\<close> when \<open>rated_at\<close> is present and the record either retains no watch
  timestamp or retains one that \<open>rated_at\<close> is strictly later than; otherwise, when
  the record has no watched date and the formatted \<open>rated_at\<close> is not empty, it
  becomes the formatted \<open>rated_at\<close>; otherwise it stays. Where a present
  \<open>rated_at\<close> is always a valid one, "present" can be read as "valid".
\<close>

theorem merge_date_rule:
  assumes "ratingKey e = Some k" and "entry st k = Some ex"
  shows "\<exists>i'. entry (ratingStep env e st) k = Some i' \<and>
     WatchedDate i' =
       (if truthy (rated_at e) \<and>
           (\<not> truthy (lastWatchedTimestamp ex) \<or>
            dateGreater env (rated_at e) (lastWatchedTimestamp ex))
        then fst (formatDate env (rated_at e))
        else if WatchedDate ex = '''' \<and> fst (formatDate env (rated_at e)) \<noteq> ''''
        then fst (formatDate env (rated_at e))
        else WatchedDate ex) \<and>
     ((truthy (rated_at e) \<longrightarrow> validDate env (rated_at e)) \<longrightarrow>
      WatchedDate i' =
       (if validDate env (rated_at e) \<and>
           (\<not> truthy (lastWatchedTimestamp ex) \<or>
            dateGreater env (rated_at e) (lastWatchedTimestamp ex))
        then fst (formatDate env (rated_at e))
        else if WatchedDate ex = '''' \<and> fst (formatDate env (rated_at e)) \<noteq> ''''
        then fst (formatDate env (rated_at e))
        else WatchedDate ex))"
proof -
  let ?i' = "mergeDate env (rated_at e) (fst (formatDate env (rated_at e)))
              (ex\<lparr>Rating10 := js_or (rating e) (JStr '''')\<rparr>)"
  from assms have "entry (ratingStep env e st) k = Some ?i'" by (rule entry_ratingStep_merge)
  moreover have "WatchedDate ?i' =
       (if truthy (rated_at e) \<and>
           (\<not> truthy (lastWatchedTimestamp ex) \<or>
            dateGreater env (rated_at e) (lastWatchedTimestamp ex))
        then fst (formatDate env (rated_at e))
        else if WatchedDate ex = '''' \<and> fst (formatDate env (rated_at e)) \<noteq> ''''
        then fst (formatDate env (rated_at e))
        else WatchedDate ex)"
    by (auto simp add: mergeDate_def Let_def)
  ultimately show ?thesis by (auto simp add: validDate_def)
qed

theorem merge_date_rule_witness:
  "map_option WatchedDate
     (entry (ratingStep sampleEnv exRating (watchedStep sampleEnv exWatched initState)) (JNum 1)) =
     Some ''2021-06-01''"
proof -
  let ?st = "watchedStep sampleEnv exWatched initState"
  let ?ex = "\<lparr>traktId = JNum 1, imdbID = JStr ''tt1'', tmdbID = JStr '''', Title = JStr ''A'',
           Year = JNum 2000, Rating10 = JStr '''', WatchedDate = ''2021-01-01'',
           Rewatch = True, lastWatchedTimestamp = JStr ''2021-01-01T00:00:00Z''\<rparr>"
  have k: "ratingKey exRating = Some (JNum 1)" by (simp add: sample_items key_defs)
  have s: "entry ?st (JNum 1) = Some ?ex"
    by (simp add: sample_items run_defs sample_dates)
  have r: "rated_at exRating = JStr ''2021-06-01T00:00:00Z''" by (simp add: sample_items)
  from merge_date_rule [OF k s, of sampleEnv]
  obtain i' where e: "entry (ratingStep sampleEnv exRating ?st) (JNum 1) = Some i'"
    and d: "WatchedDate i' =
       (if truthy (rated_at exRating) \<and>
           (\<not> truthy (lastWatchedTimestamp ?ex) \<or>
            dateGreater sampleEnv (rated_at exRating) (lastWatchedTimestamp ?ex))
        then fst (formatDate sampleEnv (rated_at exRating))
        else if WatchedDate ?ex = '''' \<and> fst (formatDate sampleEnv (rated_at exRating)) \<noteq> ''''
        then fst (formatDate sampleEnv (rated_at exRating))
        else WatchedDate ?ex)" by blast
  from d have "WatchedDate i' = ''2021-06-01''" by (simp add: r sample_dates)
  with e show ?thesis by simp
qed

text \<open>
  C2 states the first test on a valid \<open>rated_at\<close>, as the source's own comment does
  ("if ... rating date is invalid, keep the watched date"). The code tests presence, and
  the two part ways on a rating entry whose \<open>rated_at\<close> is present but no date, merged
  into a record that retains no watch timestamp and has a watched date: by the claim the
  date stays, in the code it becomes the empty string. Here the record comes from a first
  rating entry dated 2021-06-01, and a second rating entry for the same movie has the
  \<open>rated_at\<close> \<open>"garbage"\<close>.
\<close>

theorem invalid_rating_date_erases_watched_date:
  "map out_WatchedDate (records sampleEnv [] [exRating]) = [''2021-06-01''] \<and>
   map lastWatchedTimestamp (map snd (mergedMovies (runMerge sampleEnv [] [exRating]))) =
     [JNull] \<and>
   ratingKey exRatingBadDate = Some (JNum 1) \<and>
   truthy (rated_at exRatingBadDate) \<and>
   \<not> validDate sampleEnv (rated_at exRatingBadDate) \<and>
   fst (formatDate sampleEnv (rated_at exRatingBadDate)) = '''' \<and>
   map out_WatchedDate (records sampleEnv [] [exRating, exRatingBadDate]) = ['''']"
proof -
  have a: "map out_WatchedDate (records sampleEnv [] [exRating]) = [''2021-06-01'']"
    by (simp add: sample_items run_defs sample_dates)
  have b: "map lastWatchedTimestamp (map snd (mergedMovies (runMerge sampleEnv [] [exRating]))) =
     [JNull]"
    by (simp add: sample_items run_defs sample_dates)
  have c: "ratingKey exRatingBadDate = Some (JNum 1)"
    by (simp add: sample_items key_defs)
  have d: "truthy (rated_at exRatingBadDate)" by (simp add: sample_items)
  have e: "\<not> validDate sampleEnv (rated_at exRatingBadDate)"
    by (simp add: sample_items sample_dates)
  have f: "fst (formatDate sampleEnv (rated_at exRatingBadDate)) = ''''"
    by (simp add: sample_items sample_dates)
  have g: "map out_WatchedDate (records sampleEnv [] [exRating, exRatingBadDate]) = ['''']"
    by (simp add: sample_items run_defs sample_dates)
  from a b c d e f g show ?thesis by (intro conjI)
qed

section \<open>Which date a rated and watched movie gets\<close>



section \<open>Ratings\<close>

text \<open>
  C4, as amended. If key \<open>k\<close> has an accepted rating entry, its output record exists,
  whatever the watched input holds, and its rating is that of the last accepted rating
  entry for \<open>k\<close>: the entry's rating value when that value is truthy (any rating from
  1 to 10 is), and then it is not the empty string; the empty string when the entry has no
  rating or the rating 0.
\<close>

theorem rating_of_last_rating_event:
  assumes "lastWith ratingKey k rs = Some r"
  shows "\<exists>out. outputRecord env ws rs k = Some out \<and>
     out_Rating10 out = (if truthy (rating r) then rating r else JStr '''') \<and>
     (truthy (rating r) \<longrightarrow> out_Rating10 out \<noteq> JStr '''')"
proof -
  from fold_rating_last [OF assms, of env "fold (watchedStep env) ws initState"]
  obtain info where "entry (runMerge env ws rs) k = Some info"
    and "Rating10 info = js_or (rating r) (JStr '''')"
    by (auto simp add: runMerge_def)
  then show ?thesis
    by (auto simp add: outputRecord_def toRecord_def js_or_def)
qed

theorem rating_of_last_rating_event_witness:
  "lastWith ratingKey (JNum 1) [exRatingBadDate, exRatingOther, exRating, exShow] = Some exRating \<and>
   map_option out_Rating10
     (outputRecord sampleEnv [exWatched] [exRatingBadDate, exRatingOther, exRating, exShow] (JNum 1)) =
     Some (JNum 8)"
proof -
  let ?rs = "[exRatingBadDate, exRatingOther, exRating, exShow]"
  have l: "lastWith ratingKey (JNum 1) ?rs = Some exRating"
    by (simp add: sample_items key_defs)
  from rating_of_last_rating_event [OF l, of sampleEnv "[exWatched]"]
  have "map_option out_Rating10 (outputRecord sampleEnv [exWatched] ?rs (JNum 1)) =
        Some (if truthy (rating exRating) then rating exRating else JStr '''')"
    by auto
  then have "map_option out_Rating10 (outputRecord sampleEnv [exWatched] ?rs (JNum 1)) =
        Some (JNum 8)"
    by (simp add: sample_items)
  with l show ?thesis by (rule conjI)
qed

text \<open>
  The claim as first stated asks for the entry's rating value itself, never empty. A
  rating entry without a rating shows otherwise: the entry is accepted, its rating reads
  \<open>undefined\<close>, and the output record carries the empty string.
\<close>

theorem rating_precedence_counterexample:
  "ratingKey exRatingNoValue = Some (JNum 1) \<and>
   rating exRatingNoValue = JUndefined \<and>
   map out_Rating10 (records sampleEnv [exWatched] [exRatingNoValue]) = [JStr ''''] \<and>
   \<not> (map out_Rating10 (records sampleEnv [exWatched] [exRatingNoValue]) =
          [rating exRatingNoValue] \<and>
        map out_Rating10 (records sampleEnv [exWatched] [exRatingNoValue]) \<noteq> [JStr ''''])"
proof -
  have k: "ratingKey exRatingNoValue = Some (JNum 1)"
    by (simp add: sample_items key_defs)
  have v: "rating exRatingNoValue = JUndefined"
    by (simp add: sample_items)
  have e: "map out_Rating10 (records sampleEnv [exWatched] [exRatingNoValue]) = [JStr '''']"
    by (simp add: sample_items run_defs sample_dates)
  from k v e show ?thesis by simp
qed

text \<open>
  C10. A movie-typed rating entry with its identifier block whose rating is absent or 0
  leaves the empty string in the rating of the unified record of its key, whether the
  record was there before (the merge branch) or is made by this entry (the add branch).
\<close>

theorem absent_or_zero_rating_is_empty:
  assumes "ratingKey e = Some k"
    and "rating e = JUndefined \<or> rating e = JNum 0"
  shows "(\<exists>info. entry (ratingStep env e st) k = Some info \<and> Rating10 info = JStr '''' \<and>
            out_Rating10 (toRecord info) = JStr '''') \<and>
         (entry st k \<noteq> None \<longrightarrow>
            ratingsMergedCount (ratingStep env e st) = ratingsMergedCount st + 1) \<and>
         (entry st k = None \<longrightarrow>
            ratingsAddedCount (ratingStep env e st) = ratingsAddedCount st + 1)"
proof -
  from assms(2) have "js_or (rating e) (JStr '''') = JStr ''''"
    by (auto simp add: js_or_def)
  with ratingStep_rating [OF assms(1), of env st]
  have a: "\<exists>info. entry (ratingStep env e st) k = Some info \<and> Rating10 info = JStr '''' \<and>
            out_Rating10 (toRecord info) = JStr ''''"
    by (auto simp add: toRecord_def)
  from assms(1) have g: "(if type e = JStr ''movie'' then movieWithIds e else None) \<noteq> None"
    and t: "\<And>m i. movieWithIds e = Some (m, i) \<Longrightarrow> trakt i = k"
    by (auto simp add: ratingKey_def watchedKey_def split: if_splits option.splits)
  have b: "entry st k \<noteq> None \<longrightarrow>
            ratingsMergedCount (ratingStep env e st) = ratingsMergedCount st + 1"
    using g t by (auto simp add: ratingStep_def Let_def split: if_splits)
  have c: "entry st k = None \<longrightarrow>
            ratingsAddedCount (ratingStep env e st) = ratingsAddedCount st + 1"
    using g t by (auto simp add: ratingStep_def Let_def split: if_splits)
  from a b c show ?thesis by blast
qed

theorem absent_or_zero_rating_is_empty_witness:
  "map_option Rating10 (entry (ratingStep sampleEnv exRatingNoValue initState) (JNum 1)) =
     Some (JStr '''') \<and>
   map_option Rating10
     (entry (ratingStep sampleEnv (exRating\<lparr>rating := JNum 0\<rparr>)
        (ratingStep sampleEnv exRating (watchedStep sampleEnv exWatched initState))) (JNum 1)) =
     Some (JStr '''')"
proof -
  have k1: "ratingKey exRatingNoValue = Some (JNum 1)"
    by (simp add: sample_items key_defs)
  have v1: "rating exRatingNoValue = JUndefined \<or> rating exRatingNoValue = JNum 0"
    by (simp add: sample_items)
  have k2: "ratingKey (exRating\<lparr>rating := JNum 0\<rparr>) = Some (JNum 1)"
    by (simp add: sample_items key_defs)
  have v2: "rating (exRating\<lparr>rating := JNum 0\<rparr>) = JUndefined \<or>
            rating (exRating\<lparr>rating := JNum 0\<rparr>) = JNum 0"
    by simp
  from absent_or_zero_rating_is_empty [OF k1 v1, of sampleEnv initState]
  have a: "map_option Rating10 (entry (ratingStep sampleEnv exRatingNoValue initState) (JNum 1)) =
     Some (JStr '''')" by auto
  from absent_or_zero_rating_is_empty [OF k2 v2, of sampleEnv
      "ratingStep sampleEnv exRating (watchedStep sampleEnv exWatched initState)"]
  have b: "map_option Rating10
     (entry (ratingStep sampleEnv (exRating\<lparr>rating := JNum 0\<rparr>)
        (ratingStep sampleEnv exRating (watchedStep sampleEnv exWatched initState))) (JNum 1)) =
     Some (JStr '''')" by auto
  from a b show ?thesis by (rule conjI)
qed

section \<open>The rewatch flag and the fields a merge leaves alone\<close>

text \<open>
  C5. The Rewatch field of an output record is \<open>"Yes"\<close> or \<open>"No"\<close>, and it is
  \<open>"Yes"\<close> exactly when the watched entry that made the record (the last accepted
  watched entry with its key, a later one replacing the record of an earlier one) has a
  play count greater than 1. A record that only rating entries made has \<open>"No"\<close>. No
  rating entry changes the flag of a record that is there.
\<close>

theorem rewatch_from_watched_entry:
  "(outputRecord env ws rs k = Some out \<longrightarrow>
      (out_Rewatch out = ''Yes'' \<or> out_Rewatch out = ''No'') \<and>
      (out_Rewatch out = ''Yes'' \<longleftrightarrow>
         (\<exists>w n. lastWith watchedKey k ws = Some w \<and> plays w = Some n \<and> 1 < n)) \<and>
      (lastWith watchedKey k ws = None \<longrightarrow> out_Rewatch out = ''No'')) \<and>
   (entry st k = Some i \<longrightarrow>
      (\<exists>i'. entry (ratingStep env e st) k = Some i' \<and> Rewatch i' = Rewatch i))"
proof -
  have a: "(out_Rewatch out = ''Yes'' \<or> out_Rewatch out = ''No'') \<and>
      (out_Rewatch out = ''Yes'' \<longleftrightarrow>
         (\<exists>w n. lastWith watchedKey k ws = Some w \<and> plays w = Some n \<and> 1 < n)) \<and>
      (lastWith watchedKey k ws = None \<longrightarrow> out_Rewatch out = ''No'')"
    if o: "outputRecord env ws rs k = Some out"
  proof -
    from o obtain info where e: "entry (runMerge env ws rs) k = Some info"
      and out: "out = toRecord info"
      by (auto simp add: outputRecord_def)
    from rewatch_runMerge [OF e]
    have "Rewatch info =
        (\<exists>w n. lastWith watchedKey k ws = Some w \<and> plays w = Some n \<and> 1 < n)" .
    with out show ?thesis by (auto simp add: toRecord_def)
  qed
  have b: "\<exists>i'. entry (ratingStep env e st) k = Some i' \<and> Rewatch i' = Rewatch i"
    if s: "entry st k = Some i"
  proof -
    from ratingStep_frame [OF s, of env e]
    obtain i' where "entry (ratingStep env e st) k = Some i'"
      and f: "i' = i\<lparr>Rating10 := Rating10 i', WatchedDate := WatchedDate i'\<rparr>" by blast
    moreover have "Rewatch i' = Rewatch i" by (subst f) simp
    ultimately show ?thesis by blast
  qed
  from a b show ?thesis by blast
qed

theorem rewatch_from_watched_entry_witness:
  "map_option out_Rewatch
     (outputRecord sampleEnv [exKeyed (JNum 1), exWatched] [exRating, exRatingOther] (JNum 1)) =
     Some ''Yes'' \<and>
   map_option out_Rewatch
     (outputRecord sampleEnv [exKeyed (JNum 1), exWatched] [exRating, exRatingOther] (JNum 2)) =
     Some ''No'' \<and>
   lastWith watchedKey (JNum 1) [exKeyed (JNum 1), exWatched] = Some exWatched \<and>
   plays exWatched = Some 2 \<and>
   lastWith watchedKey (JNum 2) [exKeyed (JNum 1), exWatched] = None"
proof -
  let ?ws = "[exKeyed (JNum 1), exWatched]"
  let ?rs = "[exRating, exRatingOther]"
  have l1: "lastWith watchedKey (JNum 1) ?ws = Some exWatched"
    by (simp add: sample_items key_defs)
  have p: "plays exWatched = Some 2" by (simp add: sample_items)
  have l2: "lastWith watchedKey (JNum 2) ?ws = None"
    by (simp add: sample_items key_defs)
  obtain o1 where o1: "outputRecord sampleEnv ?ws ?rs (JNum 1) = Some o1"
    by (simp add: sample_items run_defs sample_dates)
  obtain o2 where o2: "outputRecord sampleEnv ?ws ?rs (JNum 2) = Some o2"
    by (simp add: sample_items run_defs sample_dates)
  from rewatch_from_watched_entry [of sampleEnv ?ws ?rs "JNum 1" o1] o1 l1 p
  have "out_Rewatch o1 = ''Yes''" by auto
  moreover
  from rewatch_from_watched_entry [of sampleEnv ?ws ?rs "JNum 2" o2] o2 l2
  have "out_Rewatch o2 = ''No''" by blast
  ultimately show ?thesis using o1 o2 l1 l2 p by simp
qed

text \<open>
  C6. A rating entry that merges into a record that is there changes its rating and its
  watched date and nothing else: after any number of rating entries the record of the key
  is the record as it was, up to these two fields; in particular its id, its imdb and
  tmdb ids, its title and its year are those it was made with.
\<close>

theorem merge_changes_rating_and_date_only:
  assumes "entry st k = Some i"
  shows "\<exists>i'. entry (fold (ratingStep env) rs st) k = Some i' \<and>
     i' = i\<lparr>Rating10 := Rating10 i', WatchedDate := WatchedDate i'\<rparr> \<and>
     traktId i' = traktId i \<and> imdbID i' = imdbID i \<and> tmdbID i' = tmdbID i \<and>
     Title i' = Title i \<and> Year i' = Year i"
proof -
  from fold_rating_frame [OF assms, of env rs]
  obtain i' where e: "entry (fold (ratingStep env) rs st) k = Some i'"
    and f: "i' = i\<lparr>Rating10 := Rating10 i', WatchedDate := WatchedDate i'\<rparr>" by blast
  have "traktId i' = traktId i" "imdbID i' = imdbID i" "tmdbID i' = tmdbID i"
    "Title i' = Title i" "Year i' = Year i"
    by (subst f, simp)+
  with e f show ?thesis by blast
qed

theorem merge_changes_rating_and_date_only_witness:
  "entry (watchedStep sampleEnv exWatched initState) (JNum 1) =
     Some \<lparr>traktId = JNum 1, imdbID = JStr ''tt1'', tmdbID = JStr '''', Title = JStr ''A'',
           Year = JNum 2000, Rating10 = JStr '''', WatchedDate = ''2021-01-01'',
           Rewatch = True, lastWatchedTimestamp = JStr ''2021-01-01T00:00:00Z''\<rparr> \<and>
   entry (fold (ratingStep sampleEnv)
            [exRating\<lparr>movie := Some \<lparr>ids = Some \<lparr>trakt = JNum 1, imdb = JStr ''tt9'',
                                                    tmdb = JNum 9\<rparr>,
                                       title = JStr ''Z'', year = JNum 1999\<rparr>\<rparr>]
            (watchedStep sampleEnv exWatched initState)) (JNum 1) =
     Some \<lparr>traktId = JNum 1, imdbID = JStr ''tt1'', tmdbID = JStr '''', Title = JStr ''A'',
           Year = JNum 2000, Rating10 = JNum 8, WatchedDate = ''2021-06-01'',
           Rewatch = True, lastWatchedTimestamp = JStr ''2021-01-01T00:00:00Z''\<rparr>"
proof -
  let ?st = "watchedStep sampleEnv exWatched initState"
  let ?i = "\<lparr>traktId = JNum 1, imdbID = JStr ''tt1'', tmdbID = JStr '''', Title = JStr ''A'',
           Year = JNum 2000, Rating10 = JStr '''', WatchedDate = ''2021-01-01'',
           Rewatch = True, lastWatchedTimestamp = JStr ''2021-01-01T00:00:00Z''\<rparr>"
  let ?rs = "[exRating\<lparr>movie := Some \<lparr>ids = Some \<lparr>trakt = JNum 1, imdb = JStr ''tt9'',
                                                    tmdb = JNum 9\<rparr>,
                                       title = JStr ''Z'', year = JNum 1999\<rparr>\<rparr>]"
  have s: "entry ?st (JNum 1) = Some ?i"
    by (simp add: sample_items run_defs sample_dates)
  from merge_changes_rating_and_date_only [OF s, of sampleEnv ?rs]
  obtain i' where e: "entry (fold (ratingStep sampleEnv) ?rs ?st) (JNum 1) = Some i'"
    and f: "i' = ?i\<lparr>Rating10 := Rating10 i', WatchedDate := WatchedDate i'\<rparr>" by blast
  have v: "map_option Rating10 (entry (fold (ratingStep sampleEnv) ?rs ?st) (JNum 1)) =
             Some (JNum 8)"
    "map_option WatchedDate (entry (fold (ratingStep sampleEnv) ?rs ?st) (JNum 1)) =
             Some ''2021-06-01''"
    by (simp_all add: sample_items run_defs sample_dates)
  with e have "Rating10 i' = JNum 8" "WatchedDate i' = ''2021-06-01''" by simp_all
  with f have "i' = ?i\<lparr>Rating10 := JNum 8, WatchedDate := ''2021-06-01''\<rparr>" by simp
  with e s show ?thesis by simp
qed

section \<open>Order of the output\<close>

text \<open>
  C7. The output keeps the order of the unified collection, which is the order in which the
  keys were first inserted: first the keys of the accepted watched entries, each where it
  first occurs in the watched input, then the keys that only accepted rating entries
  carry, each where it first occurs in the rating input. A later entry with a key already
  present (an overwrite by a watched entry, a merge by a rating entry) does not move it.
  The output is the list of the output records of these keys, in this order.
\<close>

theorem output_in_insertion_order:
  "map fst (mergedMovies (runMerge env ws rs)) =
     firstSeen (watchedKeys ws) @
     filter (\<lambda>k. k \<notin> set (watchedKeys ws)) (firstSeen (ratingKeys rs)) \<and>
   records env ws rs =
     map (\<lambda>k. the (outputRecord env ws rs k))
       (firstSeen (watchedKeys ws) @
        filter (\<lambda>k. k \<notin> set (watchedKeys ws)) (firstSeen (ratingKeys rs)))"
proof -
  have k: "keysOf (runMerge env ws rs) =
     firstSeen (watchedKeys ws) @
     filter (\<lambda>k. k \<notin> set (watchedKeys ws)) (firstSeen (ratingKeys rs))"
    by (rule keysOf_order)
  have "records env ws rs =
     map (\<lambda>k. the (outputRecord env ws rs k)) (keysOf (runMerge env ws rs))"
    by (rule records_by_key)
  with k show ?thesis by (simp add: keysOf_def)
qed

theorem output_in_insertion_order_witness:
  "map fst (mergedMovies (runMerge sampleEnv
      [exKeyed (JNum 5), exWatched, exNoIds, exKeyed (JNum 5)]
      [exRatingOther, exRating, exShow, exKeyed (JNum 5), exRatingOther])) =
     [JNum 5, JNum 1, JNum 2] \<and>
   map out_Rating10 (records sampleEnv
      [exKeyed (JNum 5), exWatched, exNoIds, exKeyed (JNum 5)]
      [exRatingOther, exRating, exShow, exKeyed (JNum 5), exRatingOther]) =
     [JNum 6, JNum 8, JNum 5]"
proof -
  let ?ws = "[exKeyed (JNum 5), exWatched, exNoIds, exKeyed (JNum 5)]"
  let ?rs = "[exRatingOther, exRating, exShow, exKeyed (JNum 5), exRatingOther]"
  have w: "watchedKeys ?ws = [JNum 5, JNum 1, JNum 5]"
    by (simp add: sample_items key_defs)
  have r: "ratingKeys ?rs = [JNum 2, JNum 1, JNum 5, JNum 2]"
    by (simp add: sample_items key_defs)
  have o: "firstSeen (watchedKeys ?ws) @
        filter (\<lambda>k. k \<notin> set (watchedKeys ?ws)) (firstSeen (ratingKeys ?rs)) =
        [JNum 5, JNum 1, JNum 2]"
    by (simp add: w r)
  have e: "map out_Rating10 (records sampleEnv ?ws ?rs) = [JNum 6, JNum 8, JNum 5]"
    by (simp add: sample_items run_defs sample_dates)
  from output_in_insertion_order [of sampleEnv ?ws ?rs]
  have "map fst (mergedMovies (runMerge sampleEnv ?ws ?rs)) =
     firstSeen (watchedKeys ?ws) @
     filter (\<lambda>k. k \<notin> set (watchedKeys ?ws)) (firstSeen (ratingKeys ?rs))"
    by (rule conjunct1)
  with o have "map fst (mergedMovies (runMerge sampleEnv ?ws ?rs)) = [JNum 5, JNum 1, JNum 2]"
    by simp
  from this e show ?thesis by (rule conjI)
qed

section \<open>Entries the guards turn away\<close>

text \<open>
  C8. The claim: an entry without its identifier block never makes processing throw; it
  is skipped with a warning and the rest is processed as if it were not there. The guards
  test \<open>item.movie\<close> and what lies below it, not \<open>item\<close>: an array element that
  is \<open>null\<close>, which has no identifier block either, makes the read of
  \<open>item.movie\<close> in the watched loop, or of \<open>item.type\<close> in the rating loop,
  throw a \<open>TypeError\<close>, and no record reaches the writer. Here the scenario of the
  specification is run with a \<open>null\<close> after the watched entry, then with a
  \<open>null\<close> before the rating entry, then without either.
\<close>

theorem null_entry_throws:
  "processTraktData sampleEnv
     (Some [ObjectElement exWatched, NullElement]) (Some [ObjectElement exRating]) =
     Inl TypeError \<and>
   processTraktData sampleEnv
     (Some [ObjectElement exWatched]) (Some [NullElement, ObjectElement exRating]) =
     Inl TypeError \<and>
   processTraktData sampleEnv
     (Some [ObjectElement exWatched]) (Some [ObjectElement exRating]) =
     Inr (Some [\<lparr>out_imdbID = JStr ''tt1'', out_tmdbID = JStr '''', out_Title = JStr ''A'',
                 out_Year = JNum 2000, out_Rating10 = JNum 8, out_WatchedDate = ''2021-06-01'',
                 out_Rewatch = ''Yes''\<rparr>])"
proof -
  have a: "processTraktData sampleEnv
     (Some [ObjectElement exWatched, NullElement]) (Some [ObjectElement exRating]) =
     Inl TypeError"
    by (simp add: processTraktData_def watchedCallback_def)
  have b: "processTraktData sampleEnv
     (Some [ObjectElement exWatched]) (Some [NullElement, ObjectElement exRating]) =
     Inl TypeError"
    by (simp add: processTraktData_def watchedCallback_def ratingCallback_def)
  have "processTraktData sampleEnv
     (Some (map ObjectElement [exWatched])) (Some (map ObjectElement [exRating])) =
     Inr (Some (records sampleEnv [exWatched] [exRating]))"
    by (rule processTraktData_records)
  moreover have "records sampleEnv [exWatched] [exRating] =
     [\<lparr>out_imdbID = JStr ''tt1'', out_tmdbID = JStr '''', out_Title = JStr ''A'',
       out_Year = JNum 2000, out_Rating10 = JNum 8, out_WatchedDate = ''2021-06-01'',
       out_Rewatch = ''Yes''\<rparr>]"
    by (simp add: sample_items run_defs sample_dates)
  ultimately have c: "processTraktData sampleEnv
     (Some [ObjectElement exWatched]) (Some [ObjectElement exRating]) =
     Inr (Some [\<lparr>out_imdbID = JStr ''tt1'', out_tmdbID = JStr '''', out_Title = JStr ''A'',
                 out_Year = JNum 2000, out_Rating10 = JNum 8, out_WatchedDate = ''2021-06-01'',
                 out_Rewatch = ''Yes''\<rparr>])"
    by simp
  from a b c show ?thesis by (intro conjI)
qed

text \<open>
  What does hold, on entries that are objects. A watched entry for which the guard finds
  no \<open>movie\<close>, no \<open>movie.ids\<close> or no key, and a rating entry like it or of a type
  other than \<open>"movie"\<close>, is skipped: its step returns the state it was given with one
  more warning, the one naming the entry. With the entry anywhere in its input, the
  output records, the unified collection and the two counters are what they are without
  it, and the warnings are those of the run without it with the entry's warning put in at
  its place.
\<close>

theorem malformed_entry_is_skipped:
  "(movieWithIds e = None \<longrightarrow>
      watchedStep env e st = st\<lparr>warnings := warnings st @ [SkippingWatched e]\<rparr> \<and>
      records env (ws1 @ e # ws2) rs = records env (ws1 @ ws2) rs \<and>
      core (runMerge env (ws1 @ e # ws2) rs) = core (runMerge env (ws1 @ ws2) rs) \<and>
      warnings (runMerge env (ws1 @ ws2) rs) =
        concat (map (watchedWarnings env) ws1) @
        concat (map (watchedWarnings env) ws2) @ concat (map (ratingWarnings env) rs) \<and>
      warnings (runMerge env (ws1 @ e # ws2) rs) =
        concat (map (watchedWarnings env) ws1) @ SkippingWatched e #
        concat (map (watchedWarnings env) ws2) @ concat (map (ratingWarnings env) rs)) \<and>
   (type e \<noteq> JStr ''movie'' \<or> movieWithIds e = None \<longrightarrow>
      ratingStep env e st = st\<lparr>warnings := warnings st @ [SkippingRating e]\<rparr> \<and>
      records env ws (rs1 @ e # rs2) = records env ws (rs1 @ rs2) \<and>
      core (runMerge env ws (rs1 @ e # rs2)) = core (runMerge env ws (rs1 @ rs2)) \<and>
      warnings (runMerge env ws (rs1 @ rs2)) =
        concat (map (watchedWarnings env) ws) @
        concat (map (ratingWarnings env) rs1) @ concat (map (ratingWarnings env) rs2) \<and>
      warnings (runMerge env ws (rs1 @ e # rs2)) =
        concat (map (watchedWarnings env) ws) @
        concat (map (ratingWarnings env) rs1) @ SkippingRating e #
        concat (map (ratingWarnings env) rs2))"
proof (intro conjI impI)
  assume "movieWithIds e = None"
  then have k: "watchedKey e = None" by (simp add: watchedKey_def)
  from k show "watchedStep env e st = st\<lparr>warnings := warnings st @ [SkippingWatched e]\<rparr>"
    by (rule watchedStep_skip)
  from k show c: "core (runMerge env (ws1 @ e # ws2) rs) = core (runMerge env (ws1 @ ws2) rs)"
    by (rule core_skip_watched)
  then show "records env (ws1 @ e # ws2) rs = records env (ws1 @ ws2) rs"
    by (rule records_core)
  show "warnings (runMerge env (ws1 @ ws2) rs) =
        concat (map (watchedWarnings env) ws1) @
        concat (map (watchedWarnings env) ws2) @ concat (map (ratingWarnings env) rs)"
    by (simp add: warnings_runMerge)
  from k show "warnings (runMerge env (ws1 @ e # ws2) rs) =
        concat (map (watchedWarnings env) ws1) @ SkippingWatched e #
        concat (map (watchedWarnings env) ws2) @ concat (map (ratingWarnings env) rs)"
    by (simp add: warnings_runMerge watchedWarnings_def)
next
  assume "type e \<noteq> JStr ''movie'' \<or> movieWithIds e = None"
  then have k: "ratingKey e = None" by (auto simp add: ratingKey_def watchedKey_def)
  from k show "ratingStep env e st = st\<lparr>warnings := warnings st @ [SkippingRating e]\<rparr>"
    by (rule ratingStep_skip)
  from k show c: "core (runMerge env ws (rs1 @ e # rs2)) = core (runMerge env ws (rs1 @ rs2))"
    by (rule core_skip_rating)
  then show "records env ws (rs1 @ e # rs2) = records env ws (rs1 @ rs2)"
    by (rule records_core)
  show "warnings (runMerge env ws (rs1 @ rs2)) =
        concat (map (watchedWarnings env) ws) @
        concat (map (ratingWarnings env) rs1) @ concat (map (ratingWarnings env) rs2)"
    by (simp add: warnings_runMerge)
  from k show "warnings (runMerge env ws (rs1 @ e # rs2)) =
        concat (map (watchedWarnings env) ws) @
        concat (map (ratingWarnings env) rs1) @ SkippingRating e #
        concat (map (ratingWarnings env) rs2)"
    by (simp add: warnings_runMerge ratingWarnings_def)
qed

theorem malformed_entry_is_skipped_witness:
  "movieWithIds exNoIds = None \<and>
   movieWithIds emptyItem = None \<and>
   type exShow \<noteq> JStr ''movie'' \<and>
   records sampleEnv ([exWatched] @ exNoIds # [exKeyed (JNum 2)]) [exRating] =
     records sampleEnv ([exWatched] @ [exKeyed (JNum 2)]) [exRating] \<and>
   records sampleEnv ([] @ emptyItem # [exWatched]) [exRating] =
     records sampleEnv ([] @ [exWatched]) [exRating] \<and>
   records sampleEnv [exWatched] ([exRating] @ exShow # [exRatingOther]) =
     records sampleEnv [exWatched] ([exRating] @ [exRatingOther]) \<and>
   records sampleEnv [exWatched] ([exRating] @ exNoIds # [exRatingOther]) =
     records sampleEnv [exWatched] ([exRating] @ [exRatingOther]) \<and>
   length (records sampleEnv [exWatched] ([exRating] @ [exRatingOther])) = 2 \<and>
   warnings (runMerge sampleEnv ([exWatched] @ exNoIds # [exKeyed (JNum 2)]) [exRating]) =
     [SkippingWatched exNoIds]"
proof -
  have a: "movieWithIds exNoIds = None" by (simp add: sample_items key_defs)
  have b: "movieWithIds emptyItem = None" by (simp add: sample_items key_defs)
  have c: "type exShow \<noteq> JStr ''movie''" by (simp add: sample_items)
  then have c': "type exShow \<noteq> JStr ''movie'' \<or> movieWithIds exShow = None" by (rule disjI1)
  from a have a': "type exNoIds \<noteq> JStr ''movie'' \<or> movieWithIds exNoIds = None"
    by (rule disjI2)
  have l: "length (records sampleEnv [exWatched] ([exRating] @ [exRatingOther])) = 2"
    by (simp add: sample_items run_defs sample_dates)
  have w: "concat (map (watchedWarnings sampleEnv) [exWatched]) @ SkippingWatched exNoIds #
        concat (map (watchedWarnings sampleEnv) [exKeyed (JNum 2)]) @
        concat (map (ratingWarnings sampleEnv) [exRating]) = [SkippingWatched exNoIds]"
    by (simp add: watchedWarnings_def ratingWarnings_def sample_items key_defs sample_dates)
  note t1 = malformed_entry_is_skipped [of exNoIds sampleEnv initState "[exWatched]"
      "[exKeyed (JNum 2)]" "[exRating]" "[exWatched]" "[exRating]" "[exRatingOther]"]
  note t2 = malformed_entry_is_skipped [of emptyItem sampleEnv initState "[]"
      "[exWatched]" "[exRating]" "[exWatched]" "[exRating]" "[exRatingOther]"]
  note t3 = malformed_entry_is_skipped [of exShow sampleEnv initState "[]"
      "[]" "[]" "[exWatched]" "[exRating]" "[exRatingOther]"]
  from t1 a have r1: "records sampleEnv ([exWatched] @ exNoIds # [exKeyed (JNum 2)]) [exRating] =
     records sampleEnv ([exWatched] @ [exKeyed (JNum 2)]) [exRating]" by blast
  from t1 a have w1: "warnings (runMerge sampleEnv ([exWatched] @ exNoIds # [exKeyed (JNum 2)])
        [exRating]) =
       concat (map (watchedWarnings sampleEnv) [exWatched]) @ SkippingWatched exNoIds #
        concat (map (watchedWarnings sampleEnv) [exKeyed (JNum 2)]) @
        concat (map (ratingWarnings sampleEnv) [exRating])" by blast
  from t2 b have r2: "records sampleEnv ([] @ emptyItem # [exWatched]) [exRating] =
     records sampleEnv ([] @ [exWatched]) [exRating]" by blast
  from t3 c' have r3: "records sampleEnv [exWatched] ([exRating] @ exShow # [exRatingOther]) =
     records sampleEnv [exWatched] ([exRating] @ [exRatingOther])" by blast
  from t1 a' have r4: "records sampleEnv [exWatched] ([exRating] @ exNoIds # [exRatingOther]) =
     records sampleEnv [exWatched] ([exRating] @ [exRatingOther])" by blast
  from w1 w have w2: "warnings (runMerge sampleEnv ([exWatched] @ exNoIds # [exKeyed (JNum 2)])
        [exRating]) = [SkippingWatched exNoIds]" by (rule trans)
  from a b c r1 r2 r3 r4 l w2 show ?thesis by (intro conjI)
qed

text \<open>
  C9. An entry whose identifier block is there but whose \<open>trakt\<close> key is falsy (the
  number 0, the empty string, and likewise \<open>null\<close>, \<open>false\<close> or no key at all) is
  skipped with the warning, by the watched pass and by the rating pass, exactly as the
  same entry without a key is; it adds no record to the output.
\<close>

theorem falsy_key_is_skipped:
  assumes "movie e = Some m" and "ids m = Some i" and "\<not> truthy (trakt i)"
  shows "watchedStep env e st = st\<lparr>warnings := warnings st @ [SkippingWatched e]\<rparr> \<and>
     ratingStep env e st = st\<lparr>warnings := warnings st @ [SkippingRating e]\<rparr> \<and>
     core (watchedStep env e st) =
       core (watchedStep env (e\<lparr>movie := Some (m\<lparr>ids := Some (i\<lparr>trakt := JUndefined\<rparr>)\<rparr>)\<rparr>) st) \<and>
     core (ratingStep env e st) =
       core (ratingStep env (e\<lparr>movie := Some (m\<lparr>ids := Some (i\<lparr>trakt := JUndefined\<rparr>)\<rparr>)\<rparr>) st) \<and>
     mergedMovies (watchedStep env e st) = mergedMovies st \<and>
     mergedMovies (ratingStep env e st) = mergedMovies st \<and>
     records env (ws1 @ e # ws2) rs = records env (ws1 @ ws2) rs \<and>
     records env ws (rs1 @ e # rs2) = records env ws (rs1 @ rs2)"
proof -
  let ?e' = "e\<lparr>movie := Some (m\<lparr>ids := Some (i\<lparr>trakt := JUndefined\<rparr>)\<rparr>)\<rparr>"
  from assms have k: "watchedKey e = None"
    by (simp add: watchedKey_def movieWithIds_def)
  then have k2: "ratingKey e = None" by (simp add: ratingKey_def)
  have k': "watchedKey ?e' = None" by (simp add: watchedKey_def movieWithIds_def)
  then have k2': "ratingKey ?e' = None" by (simp add: ratingKey_def)
  have a: "watchedStep env e st = st\<lparr>warnings := warnings st @ [SkippingWatched e]\<rparr>"
    using k by (rule watchedStep_skip)
  have b: "ratingStep env e st = st\<lparr>warnings := warnings st @ [SkippingRating e]\<rparr>"
    using k2 by (rule ratingStep_skip)
  have c: "core (watchedStep env e st) = core (watchedStep env ?e' st)"
    by (simp add: watchedStep_skip [OF k] watchedStep_skip [OF k'] core_def)
  have d: "core (ratingStep env e st) = core (ratingStep env ?e' st)"
    by (simp add: ratingStep_skip [OF k2] ratingStep_skip [OF k2'] core_def)
  have f: "mergedMovies (watchedStep env e st) = mergedMovies st"
    by (simp add: a)
  have g: "mergedMovies (ratingStep env e st) = mergedMovies st"
    by (simp add: b)
  have h: "records env (ws1 @ e # ws2) rs = records env (ws1 @ ws2) rs"
    using core_skip_watched [OF k] by (rule records_core)
  have j: "records env ws (rs1 @ e # rs2) = records env ws (rs1 @ rs2)"
    using core_skip_rating [OF k2] by (rule records_core)
  from a b c d f g h j show ?thesis by (intro conjI)
qed

theorem falsy_key_is_skipped_witness:
  "watchedStep sampleEnv (exKeyed (JNum 0)) initState =
     initState\<lparr>warnings := [SkippingWatched (exKeyed (JNum 0))]\<rparr> \<and>
   ratingStep sampleEnv (exKeyed (JStr '''')) initState =
     initState\<lparr>warnings := [SkippingRating (exKeyed (JStr ''''))]\<rparr> \<and>
   records sampleEnv ([exWatched] @ exKeyed (JNum 0) # []) ([exRating] @ []) =
     records sampleEnv ([exWatched] @ []) ([exRating] @ []) \<and>
   records sampleEnv [exWatched] ([exRating] @ exKeyed (JStr '''') # []) =
     records sampleEnv [exWatched] ([exRating] @ []) \<and>
   length (records sampleEnv [exWatched] ([exRating] @ [])) = 1"
proof -
  have m0: "movie (exKeyed (JNum 0)) = Some (movieOf (JNum 0))"
    and i0: "ids (movieOf (JNum 0)) = Some \<lparr>trakt = JNum 0, imdb = JUndefined, tmdb = JUndefined\<rparr>"
    and t0: "\<not> truthy (trakt \<lparr>trakt = JNum 0, imdb = JUndefined, tmdb = JUndefined\<rparr>)"
    by (simp_all add: sample_items)
  have m1: "movie (exKeyed (JStr '''')) = Some (movieOf (JStr ''''))"
    and i1: "ids (movieOf (JStr '''')) = Some \<lparr>trakt = JStr '''', imdb = JUndefined, tmdb = JUndefined\<rparr>"
    and t1: "\<not> truthy (trakt \<lparr>trakt = JStr '''', imdb = JUndefined, tmdb = JUndefined\<rparr>)"
    by (simp_all add: sample_items)
  note z = falsy_key_is_skipped [OF m0 i0 t0, of sampleEnv initState "[exWatched]" "[]"
      "[exRating] @ []" "[exWatched]" "[exRating]" "[]"]
  note s = falsy_key_is_skipped [OF m1 i1 t1, of sampleEnv initState "[exWatched]" "[]"
      "[exRating] @ []" "[exWatched]" "[exRating]" "[]"]
  have w0: "warnings initState = []" by (simp add: initState_def)
  from z w0 have a: "watchedStep sampleEnv (exKeyed (JNum 0)) initState =
     initState\<lparr>warnings := [SkippingWatched (exKeyed (JNum 0))]\<rparr>" by simp
  from s w0 have b: "ratingStep sampleEnv (exKeyed (JStr '''')) initState =
     initState\<lparr>warnings := [SkippingRating (exKeyed (JStr ''''))]\<rparr>" by simp
  from z have c: "records sampleEnv ([exWatched] @ exKeyed (JNum 0) # []) ([exRating] @ []) =
     records sampleEnv ([exWatched] @ []) ([exRating] @ [])" by blast
  from s have d: "records sampleEnv [exWatched] ([exRating] @ exKeyed (JStr '''') # []) =
     records sampleEnv [exWatched] ([exRating] @ [])" by blast
  have l: "length (records sampleEnv [exWatched] ([exRating] @ [])) = 1"
    by (simp add: sample_items run_defs sample_dates)
  from a b c d l show ?thesis by (intro conjI)
qed

end
